theory Spec2Isabelle
  imports Main "HOL-Library.Word"
begin

unbundle bit_operations_syntax

section \<open>JavaScript values, promises and observable effects\<close>

text \<open>
  The values that cross the program's interfaces (parsed JSON bodies, the access token):
  \<open>JUndefined\<close> is \<^verbatim>\<open>undefined\<close>, \<open>JObj\<close> carries the own properties of an object.
\<close>

datatype jsval =
    JUndefined
  | JNull
  | JBool bool
  | JNum int
  | JStr string
  | JObj "(string \<times> jsval) list"

text \<open>JavaScript truthiness, as used by \<^verbatim>\<open>if (x)\<close>, \<^verbatim>\<open>x && y\<close> and \<^verbatim>\<open>Boolean(x)\<close>.\<close>

fun truthy :: "jsval \<Rightarrow> bool" where
  "truthy JUndefined = False"
| "truthy JNull = False"
| "truthy (JBool b) = b"
| "truthy (JNum n) = (n \<noteq> 0)"
| "truthy (JStr s) = (s \<noteq> [])"
| "truthy (JObj fs) = True"

text \<open>\<^verbatim>\<open>a && b\<close>: the left operand when it is falsy, the right one otherwise.\<close>

definition js_and :: "jsval \<Rightarrow> jsval \<Rightarrow> jsval" where
  "js_and a b = (if truthy a then b else a)"

text \<open>Property read \<^verbatim>\<open>v.k\<close> on a value that is neither null nor undefined.\<close>

fun get_prop :: "jsval \<Rightarrow> string \<Rightarrow> jsval" where
  "get_prop (JObj fs) k = (case map_of fs k of None \<Rightarrow> JUndefined | Some v \<Rightarrow> v)"
| "get_prop v k = JUndefined"

text \<open>
  A string that is \<^verbatim>\<open>null\<close> when missing (\<^verbatim>\<open>URLSearchParams.get\<close>, the fields of the
  callback message) is a \<open>string option\<close>; the empty string is falsy as well.
\<close>

fun truthy_str :: "string option \<Rightarrow> bool" where
  "truthy_str None = False"
| "truthy_str (Some s) = (s \<noteq> [])"

text \<open>The text a template literal \<^verbatim>\<open>`${x}`\<close> inserts.\<close>

fun template :: "string option \<Rightarrow> string" where
  "template None = ''null''"
| "template (Some s) = s"

text \<open>The result of awaiting an async function: its value, or the message of what it threw.\<close>

datatype 'a outcome = Fulfilled 'a | Thrown string

text \<open>The state of a promise; a rejection carries the \<^verbatim>\<open>message\<close> of its Error.\<close>

datatype 'a promise = Pending | Resolved 'a | Rejected string

text \<open>
  What \<^verbatim>\<open>fetch\<close> gives back: a rejection (network failure), or a response with its
  status and its body; \<open>body = None\<close> is a body that \<^verbatim>\<open>response.json()\<close> rejects.
\<close>

record http_response =
  status :: int
  statusText :: string
  body :: "jsval option"

datatype fetch_result = FetchFailed string | FetchResponse http_response

text \<open>\<^verbatim>\<open>response.ok\<close>: the status is in the range 200 to 299.\<close>

definition ok :: "http_response \<Rightarrow> bool" where
  "ok r = (200 \<le> status r \<and> status r \<le> 299)"

text \<open>The message posted by the callback page: \<^verbatim>\<open>{type, code, state, error}\<close>.\<close>

record callback_data =
  d_type :: string
  d_code :: "string option"
  d_state :: "string option"
  d_error :: "string option"

text \<open>
  The authorization request that \<^verbatim>\<open>buildAuthUrl(state, challenge, prompt)\<close> folds into a URL
  (the other query parameters are constants of the configuration).
\<close>

record auth_url =
  url_state :: string
  url_challenge :: string
  url_prompt :: string

text \<open>
  Everything the code does to the outside, in the order it does it. Console lines keep
  their fixed text; \<open>TokenFetch code verifier\<close> is the POST of \<^verbatim>\<open>exchangeCodeForToken\<close>.
\<close>

datatype effect =
    ConsoleLog string
  | ConsoleWarn string
  | ConsoleError string
  | ValidateFetch
  | LogoutFetch
  | TokenFetch string "string option"
  | LocationReload
  | LocationHref auth_url
  | LocationReplace string
  | HistoryReplaceState
  | PostMessage callback_data string

section \<open>Session monitor\<close>

text \<open>The variables \<^verbatim>\<open>lastCheck\<close> and \<^verbatim>\<open>attached\<close> closed over by \<^verbatim>\<open>createSessionChecker\<close>.\<close>

record sessionChecker =
  lastCheck :: int
  attached :: bool

text \<open>\<^verbatim>\<open>createSessionChecker\<close>, called when \<^verbatim>\<open>now()\<close> returns \<open>t\<close>.\<close>

definition createSessionChecker :: "int \<Rightarrow> sessionChecker" where
  "createSessionChecker t = \<lparr>lastCheck = t, attached = False\<rparr>"

definition attach :: "sessionChecker \<Rightarrow> sessionChecker" where
  "attach c = (if attached c then c else c\<lparr>attached := True\<rparr>)"

definition detach :: "sessionChecker \<Rightarrow> sessionChecker" where
  "detach c = (if \<not> attached c then c else c\<lparr>attached := False\<rparr>)"

text \<open>\<^verbatim>\<open>doLogout\<close>: the POST to the logout endpoint; a failed fetch is caught and logged.\<close>

fun doLogout :: "fetch_result \<Rightarrow> unit outcome \<times> effect list" where
  "doLogout (FetchFailed err) = (Fulfilled (), [LogoutFetch, ConsoleError ''Logout API failed:''])"
| "doLogout (FetchResponse r) = (Fulfilled (), [LogoutFetch])"

text \<open>\<^verbatim>\<open>validateSession\<close>: the POST to the validate endpoint, answered by the given fetch result.\<close>

fun validateSession :: "fetch_result \<Rightarrow> bool \<times> effect list" where
  "validateSession (FetchFailed err) =
     (False, [ValidateFetch, ConsoleError ''Session validation error:''])"
| "validateSession (FetchResponse resp) =
     (if \<not> ok resp then
        (False, [ValidateFetch, ConsoleWarn ''Session validate API returned status''])
      else case body resp of
        None \<Rightarrow> (False, [ValidateFetch, ConsoleError ''Session validation error:''])
      | Some data \<Rightarrow> (truthy (js_and data (get_prop data ''valid'')), [ValidateFetch]))"

text \<open>
  \<^verbatim>\<open>checkIfNeeded\<close> when \<^verbatim>\<open>now()\<close> returns \<open>nowTs\<close>; \<open>vres\<close> and \<open>lres\<close> are what the validate
  and the logout endpoints answer if they are called.
\<close>

definition checkIfNeeded ::
  "int \<Rightarrow> int \<Rightarrow> fetch_result \<Rightarrow> fetch_result \<Rightarrow> sessionChecker
     \<Rightarrow> unit outcome \<times> sessionChecker \<times> effect list" where
  "checkIfNeeded interval nowTs vres lres c =
     (if nowTs - lastCheck c \<ge> interval then
        (let c' = c\<lparr>lastCheck := nowTs\<rparr>;
             logged = [ConsoleLog ''sessionChecker: validating session at''];
             (valid, es) = validateSession vres
         in if \<not> valid then
              (case doLogout lres of
                 (Fulfilled u, ls) \<Rightarrow>
                   (Fulfilled (), c',
                    logged @ es @ [ConsoleLog ''sessionChecker: session invalid, logging out'']
                      @ ls @ [LocationReload])
               | (Thrown m, ls) \<Rightarrow>
                   (Thrown m, c',
                    logged @ es @ [ConsoleLog ''sessionChecker: session invalid, logging out'']
                      @ ls))
            else (Fulfilled (), c', logged @ es))
      else (Fulfilled (), c, []))"

text \<open>\<^verbatim>\<open>activityHandler\<close>: runs the check and logs whatever it throws.\<close>

definition activityHandler ::
  "int \<Rightarrow> int \<Rightarrow> fetch_result \<Rightarrow> fetch_result \<Rightarrow> sessionChecker
     \<Rightarrow> sessionChecker \<times> effect list" where
  "activityHandler interval nowTs vres lres c =
     (case checkIfNeeded interval nowTs vres lres c of
        (Fulfilled u, c', es) \<Rightarrow> (c', es)
      | (Thrown m, c', es) \<Rightarrow>
          (c', es @ [ConsoleError ''Error during session check on activity:'']))"

text \<open>
  One activity event: the time \<^verbatim>\<open>now()\<close> shows when its handler runs, and the answers of
  the two endpoints at that moment.
\<close>

record activity =
  at :: int
  validate_answer :: fetch_result
  logout_answer :: fetch_result

text \<open>The handler run on a sequence of activity events, with everything it did.\<close>

fun activities :: "int \<Rightarrow> sessionChecker \<Rightarrow> activity list \<Rightarrow> sessionChecker \<times> effect list" where
  "activities interval c [] = (c, [])"
| "activities interval c (a # as) =
     (case activityHandler interval (at a) (validate_answer a) (logout_answer a) c of
        (c', es) \<Rightarrow> (case activities interval c' as of (c'', es') \<Rightarrow> (c'', es @ es')))"

text \<open>The number of validation calls in a trace.\<close>

definition validations :: "effect list \<Rightarrow> nat" where
  "validations es = count_list es ValidateFetch"

text \<open>Sample answers and events for the concrete runs below.\<close>

definition session_valid :: fetch_result where
  "session_valid = FetchResponse \<lparr>status = 200, statusText = ''OK'',
     body = Some (JObj [(''valid'', JBool True)])\<rparr>"

definition click_at :: "int \<Rightarrow> activity" where
  "click_at t = \<lparr>at = t, validate_answer = session_valid, logout_answer = session_valid\<rparr>"

definition session_expired :: fetch_result where
  "session_expired = FetchResponse \<lparr>status = 401, statusText = ''Unauthorized'', body = None\<rparr>"

section \<open>PKCE material\<close>

type_synonym u8 = "8 word"
type_synonym u32 = "32 word"

subsection \<open>The random strings\<close>

text \<open>
  The system's random source, as the stream of bytes it hands out:
  \<^verbatim>\<open>crypto.getRandomValues\<close> on an array of \<open>n\<close> bytes takes the next \<open>n\<close> of them.
\<close>

type_synonym rng = "nat \<Rightarrow> u8"

definition getRandomValues :: "rng \<Rightarrow> nat \<Rightarrow> u8 list \<times> rng" where
  "getRandomValues g n = (map g [0..<n], \<lambda>i. g (n + i))"

definition chars :: string where
  "chars = ''ABCDEFGHIJKLMNOPQRSTUVWXYZabcdefghijklmnopqrstuvwxyz0123456789-._''"

text \<open>\<^verbatim>\<open>generateRandomString(length)\<close>: each random byte picks \<^verbatim>\<open>chars[byte % chars.length]\<close>.\<close>

definition generateRandomString :: "rng \<Rightarrow> nat \<Rightarrow> string \<times> rng" where
  "generateRandomString g len =
     (case getRandomValues g len of
        (array, g') \<Rightarrow> (map (\<lambda>byte. chars ! (unat byte mod length chars)) array, g'))"

subsection \<open>The platform's SHA-256 (\<^verbatim>\<open>crypto.subtle.digest\<close>), after FIPS 180-4\<close>

definition rotr :: "nat \<Rightarrow> u32 \<Rightarrow> u32" where
  "rotr n x = drop_bit n x OR push_bit (32 - n) x"

definition Ch :: "u32 \<Rightarrow> u32 \<Rightarrow> u32 \<Rightarrow> u32" where
  "Ch x y z = (x AND y) XOR (NOT x AND z)"

definition Maj :: "u32 \<Rightarrow> u32 \<Rightarrow> u32 \<Rightarrow> u32" where
  "Maj x y z = (x AND y) XOR (x AND z) XOR (y AND z)"

definition Sigma0 :: "u32 \<Rightarrow> u32" where
  "Sigma0 x = rotr 2 x XOR rotr 13 x XOR rotr 22 x"

definition Sigma1 :: "u32 \<Rightarrow> u32" where
  "Sigma1 x = rotr 6 x XOR rotr 11 x XOR rotr 25 x"

definition sigma0 :: "u32 \<Rightarrow> u32" where
  "sigma0 x = rotr 7 x XOR rotr 18 x XOR drop_bit 3 x"

definition sigma1 :: "u32 \<Rightarrow> u32" where
  "sigma1 x = rotr 17 x XOR rotr 19 x XOR drop_bit 10 x"

definition round_constants :: "u32 list" where
  "round_constants =
    [0x428A2F98, 0x71374491, 0xB5C0FBCF, 0xE9B5DBA5, 0x3956C25B, 0x59F111F1,
     0x923F82A4, 0xAB1C5ED5, 0xD807AA98, 0x12835B01, 0x243185BE, 0x550C7DC3,
     0x72BE5D74, 0x80DEB1FE, 0x9BDC06A7, 0xC19BF174, 0xE49B69C1, 0xEFBE4786,
     0x0FC19DC6, 0x240CA1CC, 0x2DE92C6F, 0x4A7484AA, 0x5CB0A9DC, 0x76F988DA,
     0x983E5152, 0xA831C66D, 0xB00327C8, 0xBF597FC7, 0xC6E00BF3, 0xD5A79147,
     0x06CA6351, 0x14292967, 0x27B70A85, 0x2E1B2138, 0x4D2C6DFC, 0x53380D13,
     0x650A7354, 0x766A0ABB, 0x81C2C92E, 0x92722C85, 0xA2BFE8A1, 0xA81A664B,
     0xC24B8B70, 0xC76C51A3, 0xD192E819, 0xD6990624, 0xF40E3585, 0x106AA070,
     0x19A4C116, 0x1E376C08, 0x2748774C, 0x34B0BCB5, 0x391C0CB3, 0x4ED8AA4A,
     0x5B9CCA4F, 0x682E6FF3, 0x748F82EE, 0x78A5636F, 0x84C87814, 0x8CC70208,
     0x90BEFFFA, 0xA4506CEB, 0xBEF9A3F7, 0xC67178F2]"

text \<open>Four bytes, most significant first, as one word; a word as its four bytes.\<close>

definition be32 :: "u8 list \<Rightarrow> u32" where
  "be32 bs = foldl (\<lambda>acc b. push_bit 8 acc OR ucast b) 0 bs"

definition u32_bytes :: "u32 \<Rightarrow> u8 list" where
  "u32_bytes w = [ucast (drop_bit 24 w), ucast (drop_bit 16 w), ucast (drop_bit 8 w), ucast w]"

definition u64_bytes :: "64 word \<Rightarrow> u8 list" where
  "u64_bytes w = map (\<lambda>i. ucast (drop_bit (8 * i) w)) [7, 6, 5, 4, 3, 2, 1, 0]"

fun words_of :: "nat \<Rightarrow> u8 list \<Rightarrow> u32 list" where
  "words_of 0 bs = []"
| "words_of (Suc n) bs = be32 (take 4 bs) # words_of n (drop 4 bs)"

text \<open>
  Padding: the byte 0x80, zero bytes up to 56 modulo 64, and the length of the message in
  bits as 8 bytes.
\<close>

definition sha256_pad :: "u8 list \<Rightarrow> u8 list" where
  "sha256_pad m =
     m @ [0x80] @ replicate ((119 - length m mod 64) mod 64) 0
       @ u64_bytes (of_nat (8 * length m))"

fun blocks :: "nat \<Rightarrow> u8 list \<Rightarrow> u32 list list" where
  "blocks 0 bs = []"
| "blocks (Suc n) bs = words_of 16 (take 64 bs) # blocks n (drop 64 bs)"

text \<open>The message schedule, built newest word first: \<open>w ! 1\<close> is \<open>W(t-2)\<close>, \<open>w ! 15\<close> is \<open>W(t-16)\<close>.\<close>

fun extend_schedule :: "nat \<Rightarrow> u32 list \<Rightarrow> u32 list" where
  "extend_schedule 0 w = w"
| "extend_schedule (Suc n) w =
     extend_schedule n ((sigma1 (w ! 1) + w ! 6 + sigma0 (w ! 14) + w ! 15) # w)"

definition schedule :: "u32 list \<Rightarrow> u32 list" where
  "schedule blk = rev (extend_schedule 48 (rev blk))"

type_synonym hash_state = "u32 \<times> u32 \<times> u32 \<times> u32 \<times> u32 \<times> u32 \<times> u32 \<times> u32"

fun sha256_round :: "hash_state \<Rightarrow> u32 \<times> u32 \<Rightarrow> hash_state" where
  "sha256_round (a, b, c, d, e, f, g, h) (k, w) =
     (let t1 = h + Sigma1 e + Ch e f g + k + w;
          t2 = Sigma0 a + Maj a b c
      in (t1 + t2, a, b, c, d + t1, e, f, g))"

fun compress :: "hash_state \<Rightarrow> u32 list \<Rightarrow> hash_state" where
  "compress (a, b, c, d, e, f, g, h) blk =
     (case foldl sha256_round (a, b, c, d, e, f, g, h) (zip round_constants (schedule blk)) of
        (a', b', c', d', e', f', g', h') \<Rightarrow>
          (a + a', b + b', c + c', d + d', e + e', f + f', g + g', h + h'))"

definition digest_SHA256 :: "u8 list \<Rightarrow> u8 list" where
  "digest_SHA256 m =
     (let p = sha256_pad m;
          h0 = (0x6A09E667, 0xBB67AE85, 0x3C6EF372, 0xA54FF53A,
                0x510E527F, 0x9B05688C, 0x1F83D9AB, 0x5BE0CD19)
      in case foldl compress h0 (blocks (length p div 64) p) of
           (a, b, c, d, e, f, g, h) \<Rightarrow> concat (map u32_bytes [a, b, c, d, e, f, g, h]))"

subsection \<open>The code challenge\<close>

text \<open>
  \<^verbatim>\<open>TextEncoder.encode\<close>: UTF-8. A \<open>char\<close> is a code point below 256: one byte below 128,
  two bytes from there on.
\<close>

definition encode_char :: "char \<Rightarrow> u8 list" where
  "encode_char c =
     (let n = (of_char c :: nat)
      in if n < 128 then [of_nat n] else [of_nat (192 + n div 64), of_nat (128 + n mod 64)])"

definition encode :: "string \<Rightarrow> u8 list" where
  "encode s = concat (map encode_char s)"

text \<open>\<^verbatim>\<open>String.fromCharCode(...bytes)\<close>: one character per byte.\<close>

definition fromCharCode :: "u8 list \<Rightarrow> string" where
  "fromCharCode bs = map (\<lambda>b. char_of (unat b)) bs"

definition base64_chars :: string where
  "base64_chars = ''ABCDEFGHIJKLMNOPQRSTUVWXYZabcdefghijklmnopqrstuvwxyz0123456789+/''"

text \<open>\<^verbatim>\<open>btoa\<close>: base64 with padding, three characters of the binary string at a time.\<close>

fun btoa :: "string \<Rightarrow> string" where
  "btoa [] = []"
| "btoa [a] =
     (let x = (of_char a :: nat)
      in [base64_chars ! (x div 4), base64_chars ! (x mod 4 * 16), CHR ''='', CHR ''=''])"
| "btoa [a, b] =
     (let x = (of_char a :: nat); y = (of_char b :: nat)
      in [base64_chars ! (x div 4), base64_chars ! (x mod 4 * 16 + y div 16),
          base64_chars ! (y mod 16 * 4), CHR ''=''])"
| "btoa (a # b # c # rest) =
     (let x = (of_char a :: nat); y = (of_char b :: nat); z = (of_char c :: nat)
      in [base64_chars ! (x div 4), base64_chars ! (x mod 4 * 16 + y div 16),
          base64_chars ! (y mod 16 * 4 + z div 64), base64_chars ! (z mod 64)] @ btoa rest)"

text \<open>\<^verbatim>\<open>s.replace(/x/g, rep)\<close> for a one-character pattern.\<close>

definition replace_all :: "char \<Rightarrow> string \<Rightarrow> string \<Rightarrow> string" where
  "replace_all x rep s = concat (map (\<lambda>c. if c = x then rep else [c]) s)"

text \<open>\<^verbatim>\<open>generateCodeChallenge(verifier)\<close>.\<close>

definition generateCodeChallenge :: "string \<Rightarrow> string" where
  "generateCodeChallenge verifier =
     (let data = encode verifier;
          hash = digest_SHA256 data;
          base64 = btoa (fromCharCode hash)
      in replace_all (CHR ''='') []
           (replace_all (CHR ''/'') ''_'' (replace_all (CHR ''+'') ''-'' base64)))"

text \<open>
  What the specification asks for, written on its own: base64url without padding
  (RFC 4648, section 5), to be compared with what the code computes.
\<close>

definition base64url_chars :: string where
  "base64url_chars = ''ABCDEFGHIJKLMNOPQRSTUVWXYZabcdefghijklmnopqrstuvwxyz0123456789-_''"

fun base64url_nopad :: "u8 list \<Rightarrow> string" where
  "base64url_nopad [] = []"
| "base64url_nopad [a] =
     [base64url_chars ! (unat a div 4), base64url_chars ! (unat a mod 4 * 16)]"
| "base64url_nopad [a, b] =
     [base64url_chars ! (unat a div 4), base64url_chars ! (unat a mod 4 * 16 + unat b div 16),
      base64url_chars ! (unat b mod 16 * 4)]"
| "base64url_nopad (a # b # c # rest) =
     [base64url_chars ! (unat a div 4), base64url_chars ! (unat a mod 4 * 16 + unat b div 16),
      base64url_chars ! (unat b mod 16 * 4 + unat c div 64), base64url_chars ! (unat c mod 64)]
       @ base64url_nopad rest"

subsection \<open>The store\<close>

text \<open>
  \<^verbatim>\<open>sessionStorage\<close>. The program writes two kinds of items: the JSON text of
  \<^verbatim>\<open>{verifier, challenge}\<close> under a state, and the text \<^verbatim>\<open>true\<close> under \<^verbatim>\<open>fonts-loaded\<close>.
  An item is kept as the value \<^verbatim>\<open>JSON.parse\<close> reads back from it.
\<close>

datatype stored = PkceJson string string | JsonTrue

type_synonym storage = "string \<rightharpoonup> stored"

text \<open>\<^verbatim>\<open>pkceData.verifier\<close> of a parsed item: \<open>None\<close> is \<^verbatim>\<open>undefined\<close>.\<close>

fun verifier_of :: "stored \<Rightarrow> string option" where
  "verifier_of (PkceJson verifier challenge) = Some verifier"
| "verifier_of JsonTrue = None"

record pkce =
  pkce_state :: string
  pkce_verifier :: string
  pkce_challenge :: string

text \<open>\<^verbatim>\<open>generateAndStorePKCE\<close>: a state of 32 and a verifier of 64 characters, stored under the state.\<close>

definition generateAndStorePKCE :: "rng \<Rightarrow> storage \<Rightarrow> pkce \<times> storage \<times> rng" where
  "generateAndStorePKCE g ss =
     (case generateRandomString g 32 of
        (state, g1) \<Rightarrow>
          (case generateRandomString g1 64 of
             (verifier, g2) \<Rightarrow>
               (let challenge = generateCodeChallenge verifier
                in (\<lparr>pkce_state = state, pkce_verifier = verifier, pkce_challenge = challenge\<rparr>,
                    ss(state \<mapsto> PkceJson verifier challenge), g2))))"

section \<open>Silent authentication, redirect and bootstrap\<close>

text \<open>\<^verbatim>\<open>buildAuthUrl(state, challenge, prompt)\<close>; an empty prompt adds no \<^verbatim>\<open>prompt\<close> parameter.\<close>

definition buildAuthUrl :: "string \<Rightarrow> string \<Rightarrow> string \<Rightarrow> auth_url" where
  "buildAuthUrl state challenge prompt =
     \<lparr>url_state = state, url_challenge = challenge, url_prompt = prompt\<rparr>"

text \<open>
  \<^verbatim>\<open>exchangeCodeForToken(code, verifier)\<close>, the token endpoint answering with the given fetch
  result. The request carries the code and the verifier as \<^verbatim>\<open>URLSearchParams\<close> writes them.
\<close>

fun exchangeCodeForToken ::
  "string \<Rightarrow> string option \<Rightarrow> fetch_result \<Rightarrow> jsval outcome \<times> effect list" where
  "exchangeCodeForToken code verifier (FetchFailed err) = (Thrown err, [TokenFetch code verifier])"
| "exchangeCodeForToken code verifier (FetchResponse response) =
     (if \<not> ok response then
        (Thrown (''Token exchange failed: '' @ statusText response), [TokenFetch code verifier])
      else case body response of
        None \<Rightarrow> (Thrown ''SyntaxError'', [TokenFetch code verifier])
      | Some data \<Rightarrow>
          (if data = JNull \<or> data = JUndefined then
             (Thrown ''TypeError'', [TokenFetch code verifier])
           else (Fulfilled (get_prop data ''access_token''), [TokenFetch code verifier])))"

text \<open>
  The page a silent attempt runs in: the store, the random source, and what the promise
  executor of \<^verbatim>\<open>getAccessTokenSilently\<close> sets up. \<open>iframe\<close> is \<open>Some src\<close> while the hidden
  frame is a child of the document body; \<open>timer_armed\<close> and \<open>listener_armed\<close> say whether
  the timeout is pending and whether \<^verbatim>\<open>messageHandler\<close> is registered; \<open>silent_state\<close> is the
  \<^verbatim>\<open>state\<close> the attempt generated; \<open>silent_promise\<close> is the promise it returned.
\<close>

record page =
  sessionStorage :: storage
  entropy :: rng
  iframe :: "auth_url option"
  timer_armed :: bool
  listener_armed :: bool
  silent_state :: string
  silent_promise :: "jsval promise"
  trace :: "effect list"

definition emit :: "effect list \<Rightarrow> page \<Rightarrow> page" where
  "emit es p = p\<lparr>trace := trace p @ es\<rparr>"

text \<open>\<^verbatim>\<open>resolve\<close> and \<^verbatim>\<open>reject\<close>: only the first call settles the promise.\<close>

definition settle :: "jsval promise \<Rightarrow> page \<Rightarrow> page" where
  "settle r p = (if silent_promise p = Pending then p\<lparr>silent_promise := r\<rparr> else p)"

text \<open>
  \<^verbatim>\<open>getAccessTokenSilently\<close> up to the return of its promise: the PKCE material is stored, the
  frame is appended, the timeout and the listener are armed.
\<close>

definition getAccessTokenSilently :: "page \<Rightarrow> page" where
  "getAccessTokenSilently p =
     (case generateAndStorePKCE (entropy p) (sessionStorage p) of
        (k, ss, g) \<Rightarrow>
          p\<lparr>sessionStorage := ss, entropy := g,
            iframe := Some (buildAuthUrl (pkce_state k) (pkce_challenge k) ''none''),
            timer_armed := True, listener_armed := True,
            silent_state := pkce_state k, silent_promise := Pending\<rparr>)"

text \<open>
  The timeout callback. \<^verbatim>\<open>document.body.removeChild(iframe)\<close> throws when the frame is no
  longer a child of the body.
\<close>

definition timeoutCallback :: "page \<Rightarrow> page \<times> unit outcome" where
  "timeoutCallback p =
     (if iframe p = None then (p, Thrown ''NotFoundError'')
      else (settle (Rejected ''interaction_required'') (p\<lparr>iframe := None\<rparr>), Fulfilled ()))"

record message_event =
  ev_origin :: string
  ev_data :: callback_data

text \<open>
  \<^verbatim>\<open>messageHandler(event)\<close>. \<open>expectedOrigin\<close> is \<^verbatim>\<open>new URL(config.iam.redirectUri).origin\<close>;
  \<open>answer\<close> is what the token endpoint answers if the exchange is made. The exchange is
  started after the timer, the frame and the listener are gone, so nothing else can reach
  the promise before it completes: its result settles the promise within the same step.
\<close>

definition messageHandler ::
  "string \<Rightarrow> fetch_result \<Rightarrow> message_event \<Rightarrow> page \<Rightarrow> page \<times> unit outcome" where
  "messageHandler expectedOrigin answer event p =
     (if ev_origin event \<noteq> expectedOrigin then
        (emit [ConsoleWarn ''Rejected postMessage from unexpected origin:''] p, Fulfilled ())
      else if d_type (ev_data event) = ''oauthCallback'' then
        (let p1 = p\<lparr>timer_armed := False\<rparr>
         in if iframe p1 = None then (p1, Thrown ''NotFoundError'')
            else
              (let p2 = p1\<lparr>iframe := None, listener_armed := False\<rparr>;
                   code = d_code (ev_data event);
                   receivedState = d_state (ev_data event);
                   error = d_error (ev_data event)
               in if error = Some ''interaction_required'' then
                    (settle (Rejected ''interaction_required'') p2, Fulfilled ())
                  else if truthy_str error then
                    (settle (Rejected (''OAuth error: '' @ template error)) p2, Fulfilled ())
                  else if truthy_str code \<and> receivedState = Some (silent_state p) then
                    (case sessionStorage p2 (template receivedState) of
                       Some pkceData \<Rightarrow>
                         (let p3 = p2\<lparr>sessionStorage :=
                                (sessionStorage p2)(template receivedState := None)\<rparr>
                          in case exchangeCodeForToken (template code) (verifier_of pkceData) answer of
                               (Fulfilled token, es) \<Rightarrow>
                                 (settle (Resolved token) (emit es p3), Fulfilled ())
                             | (Thrown m, es) \<Rightarrow>
                                 (settle (Rejected m) (emit es p3), Fulfilled ()))
                     | None \<Rightarrow> (settle (Rejected ''PKCE data not found'') p2, Fulfilled ()))
                  else (settle (Rejected ''Invalid callback'') p2, Fulfilled ())))
      else (p, Fulfilled ()))"

text \<open>
  What can happen to a pending attempt: the timeout elapses, or a cross-document message
  arrives (with the token endpoint's answer, should the handler ask for it). The browser
  runs the timeout callback only while the timer is armed, once, and the handler only
  while it is registered.
\<close>

datatype silent_event = TimeoutFires | MessageArrives message_event fetch_result

fun silent_step :: "string \<Rightarrow> page \<Rightarrow> silent_event \<Rightarrow> page" where
  "silent_step expectedOrigin p TimeoutFires =
     (if timer_armed p then fst (timeoutCallback (p\<lparr>timer_armed := False\<rparr>)) else p)"
| "silent_step expectedOrigin p (MessageArrives event answer) =
     (if listener_armed p then fst (messageHandler expectedOrigin answer event p) else p)"

text \<open>\<^verbatim>\<open>redirectToLogin\<close>: fresh PKCE material, then the top-level navigation.\<close>

definition redirectToLogin :: "page \<Rightarrow> page" where
  "redirectToLogin p =
     (case generateAndStorePKCE (entropy p) (sessionStorage p) of
        (k, ss, g) \<Rightarrow>
          emit [LocationHref (buildAuthUrl (pkce_state k) (pkce_challenge k) [])]
            (p\<lparr>sessionStorage := ss, entropy := g\<rparr>))"

text \<open>
  The \<^verbatim>\<open>try\<close>/\<^verbatim>\<open>catch\<close> of \<^verbatim>\<open>getAccessToken\<close> around the awaited silent promise: what
  \<^verbatim>\<open>getAccessToken\<close>'s own promise becomes, and the page after it. \<^verbatim>\<open>redirectToLogin()\<close> is
  called without \<^verbatim>\<open>await\<close> and nothing is returned after it.
\<close>

definition getAccessToken_catch :: "page \<Rightarrow> jsval promise \<times> page" where
  "getAccessToken_catch p =
     (case silent_promise p of
        Resolved token \<Rightarrow> (Resolved token, p)
      | Pending \<Rightarrow> (Pending, p)
      | Rejected message \<Rightarrow>
          (if message = ''interaction_required'' then (Resolved JUndefined, redirectToLogin p)
           else (Rejected message, p)))"

text \<open>\<^verbatim>\<open>getAccessToken\<close>: the silent attempt, the events that reach it, then the catch.\<close>

definition getAccessToken :: "string \<Rightarrow> silent_event list \<Rightarrow> page \<Rightarrow> jsval promise \<times> page" where
  "getAccessToken expectedOrigin events p =
     getAccessToken_catch (foldl (silent_step expectedOrigin) (getAccessTokenSilently p) events)"

text \<open>The query parameters \<^verbatim>\<open>code\<close>, \<^verbatim>\<open>state\<close> and \<^verbatim>\<open>error\<close> as \<^verbatim>\<open>URLSearchParams.get\<close> returns them.\<close>

record callback_params =
  q_code :: "string option"
  q_state :: "string option"
  q_error :: "string option"

text \<open>\<^verbatim>\<open>loadForgeRock\<close>, the bootstrap of every page but the callback page.\<close>

definition loadForgeRock ::
  "string \<Rightarrow> callback_params \<Rightarrow> fetch_result \<Rightarrow> silent_event list \<Rightarrow> page \<Rightarrow> page" where
  "loadForgeRock expectedOrigin urlParams answer events p =
     (let code = q_code urlParams; state = q_state urlParams; error = q_error urlParams
      in if truthy_str error then emit [ConsoleError ''OAuth error:''] p
         else if truthy_str code \<and> truthy_str state then
           (case sessionStorage p (template state) of
              Some pkceData \<Rightarrow>
                (let p1 = p\<lparr>sessionStorage := (sessionStorage p)(template state := None)\<rparr>
                 in case exchangeCodeForToken (template code) (verifier_of pkceData) answer of
                      (Fulfilled accessToken, es) \<Rightarrow> emit (es @ [HistoryReplaceState]) p1
                    | (Thrown m, es) \<Rightarrow> emit (es @ [ConsoleError ''Token exchange failed:'']) p1)
            | None \<Rightarrow>
                emit [ConsoleError ''PKCE data not found - possible CSRF attack or session timeout''] p)
         else
           (case getAccessToken expectedOrigin events p of
              (Rejected m, p') \<Rightarrow> emit [ConsoleError ''Failed to get token:''] p'
            | (settled, p') \<Rightarrow> p'))"

section \<open>Callback dispatcher\<close>

text \<open>\<^verbatim>\<open>s.replace(pattern, replacement)\<close> with a string pattern: the first occurrence only.\<close>

fun replace_first :: "string \<Rightarrow> string \<Rightarrow> string \<Rightarrow> string" where
  "replace_first pat rep [] = (if pat = [] then rep else [])"
| "replace_first pat rep (c # s) =
     (if take (length pat) (c # s) = pat then rep @ drop (length pat) (c # s)
      else c # replace_first pat rep s)"

text \<open>
  The window the callback page runs in: the path and the query of its URL, its origin, and
  whether it is the top-level window (\<^verbatim>\<open>window.top === window.self\<close>).
\<close>

record callback_window =
  pathname :: string
  params :: callback_params
  window_origin :: string
  is_top :: bool

definition forgeRockCallback :: "callback_window \<Rightarrow> effect list" where
  "forgeRockCallback w =
     (let authCode = q_code (params w); state = q_state (params w); error = q_error (params w)
      in if truthy_str state \<and> (truthy_str authCode \<or> truthy_str error) then
           (if is_top w then
              (if truthy_str authCode then
                 (let applicationPath = replace_first ''/callback'' ''/'' (pathname w)
                  in [ConsoleLog ''Handling callback in focus.'',
                      LocationReplace (applicationPath @ ''?code='' @ template authCode
                                         @ ''&state='' @ template state)])
               else
                 (let applicationPath = replace_first ''/callback'' ''/'' (pathname w)
                  in [ConsoleLog ''Handling callback in focus.'',
                      LocationReplace (applicationPath @ ''?error='' @ template error
                                         @ ''&state='' @ template state)]))
            else
              (let targetOrigin = window_origin w
               in [ConsoleLog ''Handling callback in iframe.'',
                   PostMessage \<lparr>d_type = ''oauthCallback'', d_code = authCode, d_state = state,
                                d_error = error\<rparr> targetOrigin]))
         else [])"

section \<open>Reading traces and events\<close>

text \<open>The number of top-level navigations to the authorization endpoint in a trace.\<close>

fun is_redirect :: "effect \<Rightarrow> bool" where
  "is_redirect (LocationHref u) = True"
| "is_redirect e = False"

definition redirects :: "effect list \<Rightarrow> nat" where
  "redirects es = length (filter is_redirect es)"

text \<open>An event is foreign when it is a message whose origin is not the expected one.\<close>

fun foreign :: "string \<Rightarrow> silent_event \<Rightarrow> bool" where
  "foreign expectedOrigin TimeoutFires = False"
| "foreign expectedOrigin (MessageArrives event answer) = (ev_origin event \<noteq> expectedOrigin)"

text \<open>Sample pages, messages and answers for the concrete runs below.\<close>

definition fresh_page :: page where
  "fresh_page = \<lparr>sessionStorage = Map.empty, entropy = (\<lambda>i. of_nat i), iframe = None,
     timer_armed = False, listener_armed = False, silent_state = [],
     silent_promise = Pending, trace = []\<rparr>"

definition token_ok :: fetch_result where
  "token_ok = FetchResponse \<lparr>status = 200, statusText = ''OK'',
     body = Some (JObj [(''access_token'', JStr ''tok123'')])\<rparr>"

definition callback_message :: "string \<Rightarrow> string option \<Rightarrow> string option \<Rightarrow> string option
    \<Rightarrow> message_event" where
  "callback_message from code state error =
     \<lparr>ev_origin = from,
      ev_data = \<lparr>d_type = ''oauthCallback'', d_code = code, d_state = state, d_error = error\<rparr>\<rparr>"

definition pending_page :: page where
  "pending_page = getAccessTokenSilently fresh_page"

definition app_origin :: string where
  "app_origin = ''https://app.example''"

definition forged_reply :: silent_event where
  "forged_reply =
     MessageArrives (callback_message app_origin (Some ''abc'') (Some ''forged'') None) token_ok"

definition genuine_message :: message_event where
  "genuine_message =
     callback_message app_origin (Some ''abc'') (Some (silent_state pending_page)) None"

definition genuine_reply :: silent_event where
  "genuine_reply = MessageArrives genuine_message token_ok"

definition code_params :: callback_params where
  "code_params = \<lparr>q_code = Some ''abc'', q_state = Some (silent_state pending_page),
     q_error = None\<rparr>"

definition denied_reply :: silent_event where
  "denied_reply =
     MessageArrives
       (callback_message app_origin None (Some (silent_state pending_page)) (Some ''access_denied''))
       token_ok"

definition foreign_reply :: silent_event where
  "foreign_reply =
     MessageArrives
       (callback_message ''https://evil.example'' (Some ''abc'') (Some (silent_state pending_page)) None)
       token_ok"

definition sample_window :: "string option \<Rightarrow> string option \<Rightarrow> string option \<Rightarrow> bool
    \<Rightarrow> callback_window" where
  "sample_window code state error toplevel =
     \<lparr>pathname = ''/callback'',
      params = \<lparr>q_code = code, q_state = state, q_error = error\<rparr>,
      window_origin = app_origin, is_top = toplevel\<rparr>"

section \<open>Reading the forwarded parameters back\<close>

text \<open>
  The page the dispatcher navigates to reads its parameters with
  \<^verbatim>\<open>new URLSearchParams(window.location.search)\<close> (the first lines of \<^verbatim>\<open>loadForgeRock\<close>).
  \<open>url_search\<close> is \<^verbatim>\<open>location.search\<close> without its question mark, for the URL the dispatcher
  passed to \<^verbatim>\<open>location.replace\<close>: what lies between the first \<^verbatim>\<open>?\<close> and the first \<^verbatim>\<open>#\<close>.
\<close>

definition url_search :: "string \<Rightarrow> string" where
  "url_search u =
     drop 1 (dropWhile (\<lambda>c. c \<noteq> CHR ''?'') (takeWhile (\<lambda>c. c \<noteq> CHR ''#'') u))"

fun split_on :: "char \<Rightarrow> string \<Rightarrow> string list" where
  "split_on sep [] = [[]]"
| "split_on sep (c # s) =
     (if c = sep then [] # split_on sep s
      else case split_on sep s of [] \<Rightarrow> [[c]] | h # t \<Rightarrow> (c # h) # t)"

definition hex_digit :: "char \<Rightarrow> nat option" where
  "hex_digit c =
     (let n = (of_char c :: nat)
      in if 48 \<le> n \<and> n \<le> 57 then Some (n - 48)
         else if 65 \<le> n \<and> n \<le> 70 then Some (n - 55)
         else if 97 \<le> n \<and> n \<le> 102 then Some (n - 87)
         else None)"

definition plus_to_space :: "char \<Rightarrow> char" where
  "plus_to_space c = (if c = CHR ''+'' then CHR '' '' else c)"

text \<open>
  The decoding \<^verbatim>\<open>URLSearchParams\<close> applies to a name and to a value: \<^verbatim>\<open>+\<close> is a space and
  \<^verbatim>\<open>%XX\<close> is the byte \<open>XX\<close> (kept as one character: exact for ASCII).
\<close>

fun form_decode :: "string \<Rightarrow> string" where
  "form_decode (c # h1 # h2 # rest) =
     (case (c = CHR ''%'', hex_digit h1, hex_digit h2) of
        (True, Some a, Some b) \<Rightarrow> char_of (16 * a + b) # form_decode rest
      | other \<Rightarrow> plus_to_space c # form_decode (h1 # h2 # rest))"
| "form_decode (c # s) = plus_to_space c # form_decode s"
| "form_decode [] = []"

text \<open>
  The name and value pairs of a query: split at \<^verbatim>\<open>&\<close>, empty pieces skipped, each piece
  split at its first \<^verbatim>\<open>=\<close>; \<^verbatim>\<open>get\<close> returns the value of the first pair with the name.
\<close>

definition search_params :: "string \<Rightarrow> (string \<times> string) list" where
  "search_params search =
     map (\<lambda>piece. (form_decode (takeWhile (\<lambda>c. c \<noteq> CHR ''='') piece),
                    form_decode (drop 1 (dropWhile (\<lambda>c. c \<noteq> CHR ''='') piece))))
       (filter (\<lambda>piece. piece \<noteq> []) (split_on (CHR ''&'') search))"

definition params_get :: "(string \<times> string) list \<Rightarrow> string \<Rightarrow> string option" where
  "params_get urlParams name = map_of urlParams name"

text \<open>What \<^verbatim>\<open>loadForgeRock\<close> reads as \<^verbatim>\<open>code\<close>, \<^verbatim>\<open>state\<close> and \<^verbatim>\<open>error\<close> on the page at URL \<open>u\<close>.\<close>

definition read_callback_params :: "string \<Rightarrow> callback_params" where
  "read_callback_params u =
     (let urlParams = search_params (url_search u)
      in \<lparr>q_code = params_get urlParams ''code'',
          q_state = params_get urlParams ''state'',
          q_error = params_get urlParams ''error''\<rparr>)"

text \<open>
  The unreserved characters of a URI (RFC 3986): letters, digits and \<^verbatim>\<open>-._~\<close>. A value made
  of them stands for itself in a query.
\<close>

definition unreserved :: "string \<Rightarrow> bool" where
  "unreserved s = list_all (\<lambda>c. c \<in> set (chars @ ''~'')) s"

text \<open>\<^verbatim>\<open>URL.pathname\<close> holds neither a question mark nor a hash: both end the path.\<close>

definition is_pathname :: "string \<Rightarrow> bool" where
  "is_pathname s = list_all (\<lambda>c. c \<noteq> CHR ''?'' \<and> c \<noteq> CHR ''#'') s"

text \<open>The URL of the first \<^verbatim>\<open>location.replace\<close> in a trace, if there is one.\<close>

fun navigated_to :: "effect list \<Rightarrow> string option" where
  "navigated_to [] = None"
| "navigated_to (LocationReplace u # es) = Some u"
| "navigated_to (e # es) = navigated_to es"

section \<open>Session monitor: properties\<close>

lemma doLogout_fulfilled: "fst (doLogout r) = Fulfilled ()"
  by (cases r) simp_all

lemma validations_validateSession: "validations (snd (validateSession v)) = 1"
  by (cases v) (simp_all add: validations_def split: option.splits)

lemma validations_doLogout: "validations (snd (doLogout l)) = 0"
  by (cases l) (simp_all add: validations_def)

lemma validations_append: "validations (xs @ ys) = validations xs + validations ys"
  by (simp add: validations_def)


lemma checkIfNeeded_early:
  "nowTs - lastCheck c < interval \<Longrightarrow> checkIfNeeded interval nowTs v l c = (Fulfilled (), c, [])"
  by (simp add: checkIfNeeded_def)

lemma checkIfNeeded_fulfilled: "fst (checkIfNeeded interval nowTs v l c) = Fulfilled ()"
  using doLogout_fulfilled [of l]
  by (cases "doLogout l")
     (auto simp: checkIfNeeded_def Let_def split: prod.splits outcome.splits)

lemma checkIfNeeded_due_state:
  "interval \<le> nowTs - lastCheck c \<Longrightarrow>
     fst (snd (checkIfNeeded interval nowTs v l c)) = c\<lparr>lastCheck := nowTs\<rparr>"
  by (simp add: checkIfNeeded_def Let_def split: prod.splits outcome.splits)

lemma checkIfNeeded_invalid_trace:
  assumes "interval \<le> nowTs - lastCheck c" and "\<not> fst (validateSession v)"
  shows "snd (snd (checkIfNeeded interval nowTs v l c)) =
           [ConsoleLog ''sessionChecker: validating session at''] @ snd (validateSession v)
             @ [ConsoleLog ''sessionChecker: session invalid, logging out'']
             @ snd (doLogout l) @ [LocationReload]"
  using assms doLogout_fulfilled [of l]
  by (cases "doLogout l"; cases "validateSession v")
     (auto simp: checkIfNeeded_def Let_def split: outcome.splits)

lemma checkIfNeeded_due_validations:
  assumes "interval \<le> nowTs - lastCheck c"
  shows "validations (snd (snd (checkIfNeeded interval nowTs v l c))) = 1"
proof -
  obtain b es where v: "validateSession v = (b, es)" by (cases "validateSession v")
  obtain u ls where l: "doLogout l = (u, ls)" by (cases "doLogout l")
  have es: "validations es = 1" using validations_validateSession [of v] v by simp
  have ls: "validations ls = 0" using validations_doLogout [of l] l by simp
  have one: "validations (x # xs) = (if x = ValidateFetch then 1 else 0) + validations xs" for x xs
    by (simp add: validations_def)
  have nil: "validations [] = 0" by (simp add: validations_def)
  show ?thesis
    using assms v l es ls
    by (cases u) (simp_all add: checkIfNeeded_def Let_def validations_append one nil)
qed

lemma activityHandler_eq:
  "activityHandler interval nowTs v l c =
     (fst (snd (checkIfNeeded interval nowTs v l c)), snd (snd (checkIfNeeded interval nowTs v l c)))"
  using checkIfNeeded_fulfilled [of interval nowTs v l c]
  by (cases "checkIfNeeded interval nowTs v l c") (simp add: activityHandler_def)

lemma activityHandler_early:
  "nowTs - lastCheck c < interval \<Longrightarrow> activityHandler interval nowTs v l c = (c, [])"
  by (simp add: activityHandler_eq checkIfNeeded_early)

lemma activityHandler_due:
  "interval \<le> nowTs - lastCheck c \<Longrightarrow>
     fst (activityHandler interval nowTs v l c) = c\<lparr>lastCheck := nowTs\<rparr> \<and>
     validations (snd (activityHandler interval nowTs v l c)) = 1"
  by (simp add: activityHandler_eq checkIfNeeded_due_state checkIfNeeded_due_validations)

lemma activities_all_early:
  "\<forall>a\<in>set as. at a - lastCheck c < interval \<Longrightarrow> activities interval c as = (c, [])"
  by (induction as) (simp_all add: activityHandler_early)

lemma activities_window:
  "\<forall>a\<in>set as. \<forall>b\<in>set as. at b - at a < interval \<Longrightarrow>
     validations (snd (activities interval c as)) \<le> 1"
proof (induction as arbitrary: c)
  case Nil
  then show ?case by (simp add: validations_def)
next
  case (Cons a as)
  show ?case
  proof (cases "at a - lastCheck c < interval")
    case True
    have "validations (snd (activities interval c as)) \<le> 1"
      using Cons.IH [of c] Cons.prems by simp
    with True show ?thesis
      by (simp add: activityHandler_early split: prod.splits)
  next
    case False
    then have due: "interval \<le> at a - lastCheck c" by simp
    let ?c' = "c\<lparr>lastCheck := at a\<rparr>"
    have "\<forall>b\<in>set as. at b - lastCheck ?c' < interval"
      using Cons.prems by simp
    then have rest: "activities interval ?c' as = (?c', [])"
      by (rule activities_all_early)
    obtain c1 es where h: "activityHandler interval (at a) (validate_answer a) (logout_answer a) c = (c1, es)"
      by (cases "activityHandler interval (at a) (validate_answer a) (logout_answer a) c")
    with activityHandler_due [OF due, of "validate_answer a" "logout_answer a"]
    have "c1 = ?c'" and "validations es = 1" by simp_all
    with h rest show ?thesis by simp
  qed
qed

lemma activities_two:
  assumes "interval \<le> at a1 - lastCheck c" and "interval \<le> at a2 - at a1"
  shows "validations (snd (activities interval c [a1, a2])) = 2"
proof -
  let ?c' = "c\<lparr>lastCheck := at a1\<rparr>"
  obtain c1 es where h1: "activityHandler interval (at a1) (validate_answer a1) (logout_answer a1) c = (c1, es)"
    by (cases "activityHandler interval (at a1) (validate_answer a1) (logout_answer a1) c")
  with activityHandler_due [OF assms(1), of "validate_answer a1" "logout_answer a1"]
  have c1: "c1 = ?c'" and es: "validations es = 1" by simp_all
  have due2: "interval \<le> at a2 - lastCheck ?c'" using assms(2) by simp
  obtain c2 es2 where h2: "activityHandler interval (at a2) (validate_answer a2) (logout_answer a2) ?c' = (c2, es2)"
    by (cases "activityHandler interval (at a2) (validate_answer a2) (logout_answer a2) ?c'")
  with activityHandler_due [OF due2, of "validate_answer a2" "logout_answer a2"]
  have es2: "validations es2 = 1" by simp
  show ?thesis using h1 h2 c1 es es2 by (simp add: validations_append)
qed


text \<open>
  Claim C6, as the code has it. An activity event whose time is less than the interval
  after the last check is a no-op; an event at least the interval after the last check
  makes exactly one validation call and becomes the last check. Hence any number of events
  whose times all lie within less than the interval of each other make at most one
  validation call, and two events at least the interval apart make two calls when the first
  of them is itself at least the interval after the last check (which starts as the time
  the monitor was created).
\<close>

theorem session_monitor_throttle:
  "(nowTs - lastCheck c < interval \<longrightarrow> activityHandler interval nowTs v l c = (c, []))
   \<and> (interval \<le> nowTs - lastCheck c \<longrightarrow>
        validations (snd (activityHandler interval nowTs v l c)) = 1
        \<and> lastCheck (fst (activityHandler interval nowTs v l c)) = nowTs)
   \<and> ((\<forall>a\<in>set as. \<forall>b\<in>set as. at b - at a < interval) \<longrightarrow>
        validations (snd (activities interval c as)) \<le> 1)
   \<and> (interval \<le> at a1 - lastCheck c \<and> interval \<le> at a2 - at a1 \<longrightarrow>
        validations (snd (activities interval c [a1, a2])) = 2)"
proof (intro conjI impI)
  assume "nowTs - lastCheck c < interval"
  then show "activityHandler interval nowTs v l c = (c, [])"
    by (rule activityHandler_early)
next
  assume due: "interval \<le> nowTs - lastCheck c"
  show "validations (snd (activityHandler interval nowTs v l c)) = 1"
    using activityHandler_due [OF due] by simp
  show "lastCheck (fst (activityHandler interval nowTs v l c)) = nowTs"
    using activityHandler_due [OF due, of v l] by simp
next
  assume "\<forall>a\<in>set as. \<forall>b\<in>set as. at b - at a < interval"
  then show "validations (snd (activities interval c as)) \<le> 1"
    by (rule activities_window)
next
  assume "interval \<le> at a1 - lastCheck c \<and> interval \<le> at a2 - at a1"
  then show "validations (snd (activities interval c [a1, a2])) = 2"
    using activities_two by blast
qed

text \<open>The throttle theorem on a monitor created at time 0 with an interval of 100.\<close>

theorem session_monitor_throttle_witness:
  "(50 - lastCheck (createSessionChecker 0) < (100::int)
      \<and> activityHandler 100 50 session_valid session_valid (createSessionChecker 0)
          = (createSessionChecker 0, []))
   \<and> ((100::int) \<le> 150 - lastCheck (createSessionChecker 0)
      \<and> validations (snd (activityHandler 100 150 session_valid session_valid
            (createSessionChecker 0))) = 1)
   \<and> (list_all (\<lambda>a. list_all (\<lambda>b. at b - at a < 100)
           [click_at 120, click_at 130, click_at 140]) [click_at 120, click_at 130, click_at 140]
      \<and> validations (snd (activities 100 (createSessionChecker 0)
            [click_at 120, click_at 130, click_at 140])) \<le> 1)
   \<and> ((100::int) \<le> at (click_at 100) - lastCheck (createSessionChecker 0)
      \<and> (100::int) \<le> at (click_at 250) - at (click_at 100)
      \<and> validations (snd (activities 100 (createSessionChecker 0)
            [click_at 100, click_at 250])) = 2)"
proof -
  have h1: "50 - lastCheck (createSessionChecker 0) < (100::int)"
    by (simp add: createSessionChecker_def)
  have h2: "(100::int) \<le> 150 - lastCheck (createSessionChecker 0)"
    by (simp add: createSessionChecker_def)
  have h3: "\<forall>a\<in>set [click_at 120, click_at 130, click_at 140].
         \<forall>b\<in>set [click_at 120, click_at 130, click_at 140]. at b - at a < 100"
    by (simp add: click_at_def)
  have h4: "(100::int) \<le> at (click_at 100) - lastCheck (createSessionChecker 0)
      \<and> (100::int) \<le> at (click_at 250) - at (click_at 100)"
    by (simp add: click_at_def createSessionChecker_def)
  have h5: "list_all (\<lambda>a. list_all (\<lambda>b. at b - at a < 100)
           [click_at 120, click_at 130, click_at 140]) [click_at 120, click_at 130, click_at 140]"
    by (simp add: click_at_def)
  show ?thesis
    using h1 h2 h3 h4 h5
      session_monitor_throttle [of 50 "createSessionChecker 0" 100 session_valid session_valid
        "[click_at 120, click_at 130, click_at 140]" "click_at 100" "click_at 250"]
      session_monitor_throttle [of 150 "createSessionChecker 0" 100 session_valid session_valid
        "[]" "click_at 100" "click_at 250"]
    by blast
qed

text \<open>
  Claim C6 as written fails: a monitor created at time 0 with interval 100 sees events at
  50 and 200, more than the interval apart, and validates once: the first event is within
  the interval of the monitor's creation.
\<close>

theorem two_spaced_events_one_call:
  "at (click_at 200) - at (click_at 50) > 100
   \<and> validations (snd (activities 100 (createSessionChecker 0) [click_at 50, click_at 200])) = 1"
  by (simp add: click_at_def createSessionChecker_def activityHandler_def checkIfNeeded_def
      session_valid_def ok_def js_and_def validations_def)

text \<open>
  Claim C7: validation fails closed. A failed fetch, a status outside 200 to 299, a body
  that is not JSON and a falsy \<^verbatim>\<open>valid\<close> field all make \<^verbatim>\<open>validateSession\<close> return false;
  a failing logout call is logged and still fulfils; and a due check that finds the session
  invalid never throws, calls the validate endpoint, then the logout endpoint, and ends
  with the page reload.
\<close>

theorem session_validation_fails_closed:
  "\<not> fst (validateSession (FetchFailed err))
   \<and> (\<not> ok resp \<longrightarrow> \<not> fst (validateSession (FetchResponse resp)))
   \<and> (body resp = None \<longrightarrow> \<not> fst (validateSession (FetchResponse resp)))
   \<and> (body resp = Some data \<and> \<not> truthy (get_prop data ''valid'') \<longrightarrow>
        \<not> fst (validateSession (FetchResponse resp)))
   \<and> doLogout (FetchFailed err) = (Fulfilled (), [LogoutFetch, ConsoleError ''Logout API failed:''])
   \<and> (interval \<le> nowTs - lastCheck c \<and> \<not> fst (validateSession v) \<longrightarrow>
        fst (checkIfNeeded interval nowTs v l c) = Fulfilled ()
        \<and> snd (snd (checkIfNeeded interval nowTs v l c)) =
            [ConsoleLog ''sessionChecker: validating session at''] @ snd (validateSession v)
              @ [ConsoleLog ''sessionChecker: session invalid, logging out'']
              @ snd (doLogout l) @ [LocationReload]
        \<and> last (snd (snd (checkIfNeeded interval nowTs v l c))) = LocationReload
        \<and> LogoutFetch \<in> set (snd (doLogout l)))"
proof (intro conjI impI)
  show "\<not> fst (validateSession (FetchFailed err))" by simp
  show "\<not> fst (validateSession (FetchResponse resp))" if "\<not> ok resp"
    using that by simp
  show "\<not> fst (validateSession (FetchResponse resp))" if "body resp = None"
    using that by simp
  show "\<not> fst (validateSession (FetchResponse resp))"
    if "body resp = Some data \<and> \<not> truthy (get_prop data ''valid'')"
    using that by (simp add: js_and_def)
  show "doLogout (FetchFailed err) = (Fulfilled (), [LogoutFetch, ConsoleError ''Logout API failed:''])"
    by simp
next
  assume a: "interval \<le> nowTs - lastCheck c \<and> \<not> fst (validateSession v)"
  show "fst (checkIfNeeded interval nowTs v l c) = Fulfilled ()"
    by (rule checkIfNeeded_fulfilled)
  show t: "snd (snd (checkIfNeeded interval nowTs v l c)) =
            [ConsoleLog ''sessionChecker: validating session at''] @ snd (validateSession v)
              @ [ConsoleLog ''sessionChecker: session invalid, logging out'']
              @ snd (doLogout l) @ [LocationReload]"
    using a checkIfNeeded_invalid_trace by blast
  show "last (snd (snd (checkIfNeeded interval nowTs v l c))) = LocationReload"
    by (simp add: t)
  show "LogoutFetch \<in> set (snd (doLogout l))"
    by (cases l) simp_all
qed

text \<open>A 401 from the validate endpoint with the logout endpoint unreachable.\<close>

theorem session_validation_fails_closed_witness:
  "\<not> ok \<lparr>status = 401, statusText = ''Unauthorized'', body = None\<rparr>
   \<and> \<not> fst (validateSession session_expired)
   \<and> \<not> fst (validateSession (FetchResponse \<lparr>status = 200, statusText = ''OK'', body = None\<rparr>))
   \<and> \<not> truthy (get_prop (JObj [(''valid'', JBool False)]) ''valid'')
   \<and> \<not> fst (validateSession (FetchResponse \<lparr>status = 200, statusText = ''OK'',
            body = Some (JObj [(''valid'', JBool False)])\<rparr>))
   \<and> (100::int) \<le> 150 - lastCheck (createSessionChecker 0)
   \<and> snd (snd (checkIfNeeded 100 150 session_expired (FetchFailed ''offline'') (createSessionChecker 0)))
       = [ConsoleLog ''sessionChecker: validating session at'', ValidateFetch,
          ConsoleWarn ''Session validate API returned status'',
          ConsoleLog ''sessionChecker: session invalid, logging out'',
          LogoutFetch, ConsoleError ''Logout API failed:'', LocationReload]"
proof -
  have n: "\<not> ok \<lparr>status = 401, statusText = ''Unauthorized'', body = None\<rparr>"
    by (simp add: ok_def)
  have f: "\<not> truthy (get_prop (JObj [(''valid'', JBool False)]) ''valid'')"
    by simp
  have d: "(100::int) \<le> 150 - lastCheck (createSessionChecker 0)"
    by (simp add: createSessionChecker_def)
  note a = session_validation_fails_closed
    [of "''offline''" "\<lparr>status = 401, statusText = ''Unauthorized'', body = None\<rparr>"
        "JObj [(''valid'', JBool False)]" 100 150 "createSessionChecker 0" session_expired
        "FetchFailed ''offline''"]
  note b = session_validation_fails_closed
    [of "''offline''" "\<lparr>status = 200, statusText = ''OK'', body = None\<rparr>"
        "JObj [(''valid'', JBool False)]" 100 150 "createSessionChecker 0" session_expired
        "FetchFailed ''offline''"]
  note c = session_validation_fails_closed
    [of "''offline''" "\<lparr>status = 200, statusText = ''OK'',
            body = Some (JObj [(''valid'', JBool False)])\<rparr>"
        "JObj [(''valid'', JBool False)]" 100 150 "createSessionChecker 0" session_expired
        "FetchFailed ''offline''"]
  have e: "\<not> fst (validateSession session_expired)"
    using a n by (simp add: session_expired_def)
  show ?thesis
    using n f d e a b c by (simp add: session_expired_def ok_def)
qed

section \<open>PKCE material: properties\<close>

lemma chars_length: "length chars = 65"
  by (simp add: chars_def)

lemma chars_distinct: "distinct chars"
  by (simp add: chars_def)

lemma chars_ranges:
  "chars = map char_of ([65..<91] @ [97..<123] @ [48..<58] @ [45, 46, 95 :: nat])"
  by code_simp

lemma generateRandomString_eq:
  "generateRandomString g n =
     (map (\<lambda>i. chars ! (unat (g i) mod 65)) [0..<n], \<lambda>i. g (n + i))"
  by (simp add: generateRandomString_def getRandomValues_def chars_length comp_def)

lemma generateRandomString_length: "length (fst (generateRandomString g n)) = n"
  by (simp add: generateRandomString_eq)

lemma generateRandomString_alphabet: "set (fst (generateRandomString g n)) \<subseteq> set chars"
  by (auto simp: generateRandomString_eq chars_length)

lemma sextet_table:
  "list_all (\<lambda>n. replace_all (CHR ''='') []
           (replace_all (CHR ''/'') ''_'' (replace_all (CHR ''+'') ''-'' [base64_chars ! n]))
         = [base64url_chars ! n]) [0..<64]"
  by code_simp

lemma sextet:
  assumes "n < 64"
  shows "replace_all (CHR ''='') []
           (replace_all (CHR ''/'') ''_'' (replace_all (CHR ''+'') ''-'' [base64_chars ! n]))
         = [base64url_chars ! n]"
  using sextet_table assms by (simp add: list_all_iff)

lemma replace_all_append: "replace_all x r (s @ t) = replace_all x r s @ replace_all x r t"
  by (simp add: replace_all_def)

lemma replace_all_Cons: "replace_all x r (c # s) = replace_all x r [c] @ replace_all x r s"
  by (simp add: replace_all_def)


lemma url_of_btoa:
  "replace_all (CHR ''='') []
     (replace_all (CHR ''/'') ''_'' (replace_all (CHR ''+'') ''-'' (btoa (fromCharCode bs))))
   = base64url_nopad bs"
proof -
  define r where "r = (\<lambda>s. replace_all (CHR ''='') []
     (replace_all (CHR ''/'') ''_'' (replace_all (CHR ''+'') ''-'' s)))"
  have r_Nil: "r [] = []" by (simp add: r_def replace_all_def)
  have r_Cons: "r (c # s) = r [c] @ r s" for c s
    by (simp add: r_def replace_all_def)
  have r_app: "r (s @ t) = r s @ r t" for s t
    by (simp add: r_def replace_all_def)
  have r_pad: "r [CHR ''=''] = []" by (simp add: r_def replace_all_def)
  have r_sextet: "r [base64_chars ! n] = [base64url_chars ! n]" if "n < 64" for n
    using sextet [OF that] by (simp add: r_def)
  have bound: "unat a < 256" for a :: u8 using unsigned_less [of a, where ?'a = nat] by simp
  have bmod: "unat a mod 256 = unat a" for a :: u8 using bound [of a] by simp
  have "r (btoa (fromCharCode bs)) = base64url_nopad bs"
  proof (induction bs rule: base64url_nopad.induct)
    case 1
    show ?case by (simp add: fromCharCode_def r_Nil)
  next
    case (2 a)
    have "unat a div 4 < 64" "unat a mod 4 * 16 < 64" using bound [of a] by auto
    then show ?case
      by (simp add: Let_def fromCharCode_def bmod r_Cons [of _ "_ # _"] r_sextet r_pad)
  next
    case (3 a b)
    have "unat a div 4 < 64" "unat a mod 4 * 16 + unat b div 16 < 64" "unat b mod 16 * 4 < 64"
      using bound [of a] bound [of b] by auto
    then show ?case
      by (simp add: Let_def fromCharCode_def bmod r_Cons [of _ "_ # _"] r_sextet r_pad)
  next
    case (4 a b c rest)
    have lt: "unat a div 4 < 64" "unat a mod 4 * 16 + unat b div 16 < 64"
      "unat b mod 16 * 4 + unat c div 64 < 64" "unat c mod 64 < 64"
      using bound [of a] bound [of b] bound [of c] by auto
    have "btoa (fromCharCode (a # b # c # rest)) =
            [base64_chars ! (unat a div 4), base64_chars ! (unat a mod 4 * 16 + unat b div 16),
             base64_chars ! (unat b mod 16 * 4 + unat c div 64), base64_chars ! (unat c mod 64)]
            @ btoa (fromCharCode rest)"
      by (simp add: Let_def fromCharCode_def bmod)
    then have "r (btoa (fromCharCode (a # b # c # rest))) =
            r [base64_chars ! (unat a div 4), base64_chars ! (unat a mod 4 * 16 + unat b div 16),
               base64_chars ! (unat b mod 16 * 4 + unat c div 64), base64_chars ! (unat c mod 64)]
            @ r (btoa (fromCharCode rest))"
      by (simp only: r_app)
    also have "r [base64_chars ! (unat a div 4), base64_chars ! (unat a mod 4 * 16 + unat b div 16),
               base64_chars ! (unat b mod 16 * 4 + unat c div 64), base64_chars ! (unat c mod 64)]
          = [base64url_chars ! (unat a div 4), base64url_chars ! (unat a mod 4 * 16 + unat b div 16),
             base64url_chars ! (unat b mod 16 * 4 + unat c div 64), base64url_chars ! (unat c mod 64)]"
      using lt by (simp add: r_Cons [of _ "_ # _"] r_sextet)
    finally show ?case using 4 by simp
  qed
  then show ?thesis by (simp add: r_def)
qed

lemma generateCodeChallenge_refines:
  "generateCodeChallenge verifier = base64url_nopad (digest_SHA256 (encode verifier))"
  by (simp add: generateCodeChallenge_def Let_def url_of_btoa)


lemma generateAndStorePKCE_eq:
  "fst (generateAndStorePKCE g ss) =
     \<lparr>pkce_state = map (\<lambda>i. chars ! (unat (g i) mod 65)) [0..<32],
      pkce_verifier = map (\<lambda>i. chars ! (unat (g (32 + i)) mod 65)) [0..<64],
      pkce_challenge = generateCodeChallenge
        (map (\<lambda>i. chars ! (unat (g (32 + i)) mod 65)) [0..<64])\<rparr>"
  by (simp add: generateAndStorePKCE_def generateRandomString_eq Let_def)

text \<open>
  Claim C5, as the code has it. Whatever bytes the random source hands out, the generated
  state has 32 characters and the generated verifier 64, each character is
  \<^verbatim>\<open>chars[byte % 65]\<close> of its own random byte (the verifier's bytes follow the state's),
  and the alphabet \<open>chars\<close> has 65 distinct symbols: A to Z, a to z, 0 to 9 and
  \<^verbatim>\<open>-\<close>, \<^verbatim>\<open>.\<close>, \<^verbatim>\<open>_\<close>.
\<close>

theorem generated_state_and_verifier:
  "length (pkce_state (fst (generateAndStorePKCE g ss))) = 32
   \<and> length (pkce_verifier (fst (generateAndStorePKCE g ss))) = 64
   \<and> set (pkce_state (fst (generateAndStorePKCE g ss))) \<subseteq> set chars
   \<and> set (pkce_verifier (fst (generateAndStorePKCE g ss))) \<subseteq> set chars
   \<and> pkce_state (fst (generateAndStorePKCE g ss))
       = map (\<lambda>i. chars ! (unat (g i) mod 65)) [0..<32]
   \<and> pkce_verifier (fst (generateAndStorePKCE g ss))
       = map (\<lambda>i. chars ! (unat (g (32 + i)) mod 65)) [0..<64]
   \<and> length chars = 65 \<and> distinct chars
   \<and> chars = map char_of ([65..<91] @ [97..<123] @ [48..<58] @ [45, 46, 95 :: nat])"
proof -
  have in_chars: "chars ! (n mod 65) \<in> set chars" for n
    by (simp add: chars_length)
  have "set (map (\<lambda>i. chars ! (unat (g i) mod 65)) [0..<32]) \<subseteq> set chars"
    using in_chars by auto
  moreover have "set (map (\<lambda>i. chars ! (unat (g (32 + i)) mod 65)) [0..<64]) \<subseteq> set chars"
    using in_chars by auto
  ultimately show ?thesis
    using chars_ranges
    by (simp only: generateAndStorePKCE_eq pkce.simps length_map length_upt chars_length
        chars_distinct) simp
qed

text \<open>
  Claim C5 as written fails on the size of the alphabet: it has 65 symbols, not 66, and the
  byte 65 wraps around to the first symbol.
\<close>

theorem alphabet_has_65_symbols:
  "card (set chars) = 65 \<and> card (set chars) \<noteq> 66
   \<and> fst (generateRandomString (\<lambda>i. 65) 1) = ''A''"
proof -
  have "card (set chars) = 65"
    using distinct_card [OF chars_distinct] by (simp add: chars_length)
  moreover have "fst (generateRandomString (\<lambda>i. 65) 1) = ''A''"
    by (simp add: generateRandomString_eq chars_def)
  ultimately show ?thesis by simp
qed

section \<open>Silent authentication: properties\<close>

lemma emit_fields [simp]:
  "sessionStorage (emit es p) = sessionStorage p"
  "entropy (emit es p) = entropy p"
  "iframe (emit es p) = iframe p"
  "timer_armed (emit es p) = timer_armed p"
  "listener_armed (emit es p) = listener_armed p"
  "silent_state (emit es p) = silent_state p"
  "silent_promise (emit es p) = silent_promise p"
  "trace (emit es p) = trace p @ es"
  by (simp_all add: emit_def)

lemma emit_emit: "emit es (emit ds p) = emit (ds @ es) p"
  by (simp add: emit_def)

lemma emit_Nil: "emit [] p = p"
  by (simp add: emit_def)

lemma started_fields:
  "iframe (getAccessTokenSilently p) \<noteq> None"
  "timer_armed (getAccessTokenSilently p)"
  "listener_armed (getAccessTokenSilently p)"
  "silent_promise (getAccessTokenSilently p) = Pending"
  "trace (getAccessTokenSilently p) = trace p"
  "silent_state (getAccessTokenSilently p)
     = pkce_state (fst (generateAndStorePKCE (entropy p) (sessionStorage p)))"
  by (simp_all add: getAccessTokenSilently_def split: prod.splits)

lemma started_entry:
  "sessionStorage (getAccessTokenSilently p) (silent_state (getAccessTokenSilently p)) \<noteq> None"
  by (simp add: getAccessTokenSilently_def generateAndStorePKCE_def Let_def split: prod.splits)

lemma timeout_fires:
  assumes "timer_armed p" and "iframe p \<noteq> None" and "silent_promise p = Pending"
  shows "silent_step expectedOrigin p TimeoutFires =
           p\<lparr>timer_armed := False, iframe := None,
             silent_promise := Rejected ''interaction_required''\<rparr>"
  using assms by (simp add: timeoutCallback_def settle_def)

text \<open>
  Claim C1, where the code departs from it. After the timeout has fired on a fresh silent
  attempt the promise is rejected with \<^verbatim>\<open>interaction_required\<close> and the frame is gone, but
  \<^verbatim>\<open>messageHandler\<close> is still registered: the timeout callback never removes it. A callback
  message from the expected origin that arrives afterwards still runs the handler, which
  throws at \<^verbatim>\<open>removeChild\<close> before it reaches \<^verbatim>\<open>removeEventListener\<close>, so the listener stays.
\<close>

theorem timeout_leaves_listener_registered:
  "(let q = silent_step expectedOrigin (getAccessTokenSilently p) TimeoutFires;
        late = callback_message expectedOrigin code st err
    in silent_promise q = Rejected ''interaction_required''
       \<and> iframe q = None \<and> \<not> timer_armed q
       \<and> listener_armed q
       \<and> snd (messageHandler expectedOrigin answer late q) = Thrown ''NotFoundError''
       \<and> listener_armed (silent_step expectedOrigin q (MessageArrives late answer)))"
proof -
  let ?p = "getAccessTokenSilently p"
  have q: "silent_step expectedOrigin ?p TimeoutFires =
      ?p\<lparr>timer_armed := False, iframe := None,
         silent_promise := Rejected ''interaction_required''\<rparr>"
    by (rule timeout_fires) (simp_all add: started_fields)
  show ?thesis
    unfolding Let_def q
    by (simp add: started_fields messageHandler_def callback_message_def)
qed

lemma foreign_message:
  "ev_origin event \<noteq> expectedOrigin \<Longrightarrow>
     messageHandler expectedOrigin answer event p =
       (emit [ConsoleWarn ''Rejected postMessage from unexpected origin:''] p, Fulfilled ())"
  by (simp add: messageHandler_def)

lemma foreign_run:
  "list_all (foreign expectedOrigin) events \<Longrightarrow>
     foldl (silent_step expectedOrigin) p events =
       emit (if listener_armed p
             then replicate (length events)
                    (ConsoleWarn ''Rejected postMessage from unexpected origin:'')
             else []) p"
proof (induction events arbitrary: p)
  case Nil
  show ?case by (simp add: emit_Nil)
next
  case (Cons e events)
  then obtain event answer where e: "e = MessageArrives event answer"
    and o: "ev_origin event \<noteq> expectedOrigin"
    by (cases e) simp_all
  from Cons have rest: "list_all (foreign expectedOrigin) events" by simp
  show ?case
  proof (cases "listener_armed p")
    case True
    then show ?thesis
      using Cons.IH [OF rest] e o
      by (simp add: foreign_message emit_emit replicate_append_same)
  next
    case False
    then show ?thesis
      using Cons.IH [OF rest] e by simp
  qed
qed

text \<open>
  Claim C2: messages whose origin is not that of the redirect URI change nothing but the
  console. After any number of them the store, the random source, the frame, the timer, the
  listener and the promise are what they were (the page differs in its trace only), and an
  attempt that was pending still times out with \<^verbatim>\<open>interaction_required\<close>.
\<close>

theorem foreign_messages_change_nothing:
  assumes "list_all (foreign expectedOrigin) events"
  shows "(let q = foldl (silent_step expectedOrigin) p events
          in sessionStorage q = sessionStorage p \<and> entropy q = entropy p
             \<and> iframe q = iframe p \<and> timer_armed q = timer_armed p
             \<and> listener_armed q = listener_armed p \<and> silent_state q = silent_state p
             \<and> silent_promise q = silent_promise p
             \<and> q = p\<lparr>trace := trace q\<rparr>
             \<and> (timer_armed p \<and> iframe p \<noteq> None \<and> silent_promise p = Pending \<longrightarrow>
                  silent_promise (silent_step expectedOrigin q TimeoutFires)
                    = Rejected ''interaction_required''))"
proof -
  let ?q = "foldl (silent_step expectedOrigin) p events"
  have q: "?q = emit (if listener_armed p
             then replicate (length events)
                    (ConsoleWarn ''Rejected postMessage from unexpected origin:'')
             else []) p"
    using assms by (rule foreign_run)
  have same: "sessionStorage ?q = sessionStorage p" "entropy ?q = entropy p"
    "iframe ?q = iframe p" "timer_armed ?q = timer_armed p"
    "listener_armed ?q = listener_armed p" "silent_state ?q = silent_state p"
    "silent_promise ?q = silent_promise p"
    by (simp_all only: q emit_fields)
  have upd: "?q = p\<lparr>trace := trace ?q\<rparr>"
    by (subst (1) q) (simp add: q emit_def)
  have later: "silent_promise (silent_step expectedOrigin ?q TimeoutFires)
                 = Rejected ''interaction_required''"
    if "timer_armed p \<and> iframe p \<noteq> None \<and> silent_promise p = Pending"
  proof -
    from that same have a: "timer_armed ?q" and b: "iframe ?q \<noteq> None"
      and c: "silent_promise ?q = Pending"
      by simp_all
    show ?thesis
      by (subst timeout_fires [OF a b c]) simp
  qed
  show ?thesis
    unfolding Let_def using same upd later by blast
qed


text \<open>Two messages from another origin reach a fresh silent attempt.\<close>

theorem foreign_messages_change_nothing_witness:
  "list_all (foreign app_origin) [foreign_reply, foreign_reply]
   \<and> sessionStorage (foldl (silent_step app_origin) pending_page [foreign_reply, foreign_reply])
       = sessionStorage pending_page
   \<and> iframe (foldl (silent_step app_origin) pending_page [foreign_reply, foreign_reply])
       = iframe pending_page
   \<and> timer_armed (foldl (silent_step app_origin) pending_page [foreign_reply, foreign_reply])
   \<and> listener_armed (foldl (silent_step app_origin) pending_page [foreign_reply, foreign_reply])
   \<and> silent_promise (foldl (silent_step app_origin) pending_page [foreign_reply, foreign_reply])
       = Pending
   \<and> silent_promise (silent_step app_origin
         (foldl (silent_step app_origin) pending_page [foreign_reply, foreign_reply]) TimeoutFires)
       = Rejected ''interaction_required''"
proof -
  have f: "list_all (foreign app_origin) [foreign_reply, foreign_reply]"
    by (simp add: foreign_reply_def callback_message_def app_origin_def)
  have s: "timer_armed pending_page" "iframe pending_page \<noteq> None"
    "listener_armed pending_page" "silent_promise pending_page = Pending"
    by (simp_all add: pending_page_def started_fields)
  note r = foreign_messages_change_nothing [OF f, of pending_page, unfolded Let_def]
  show ?thesis
    using r f s by metis
qed

lemma pending_state_length: "length (silent_state pending_page) = 32"
  by (simp add: pending_page_def started_fields generateAndStorePKCE_eq)

lemma pending_entry: "sessionStorage pending_page (silent_state pending_page) \<noteq> None"
  by (simp add: pending_page_def started_entry)

lemma pending_fields:
  "timer_armed pending_page" "iframe pending_page \<noteq> None"
  "listener_armed pending_page" "silent_promise pending_page = Pending"
  "trace pending_page = []"
  by (simp_all add: pending_page_def started_fields) (simp add: fresh_page_def)

text \<open>
  Claim C3 as written fails: a callback whose state does not match (the CSRF case) rejects
  the attempt and leaves the attempt's entry in the store, and so does a timeout.
\<close>

theorem unconsumed_entry_stays:
  "silent_promise (silent_step app_origin pending_page forged_reply) = Rejected ''Invalid callback''
   \<and> sessionStorage (silent_step app_origin pending_page forged_reply) (silent_state pending_page)
       \<noteq> None
   \<and> silent_promise (silent_step app_origin pending_page TimeoutFires)
       = Rejected ''interaction_required''
   \<and> sessionStorage (silent_step app_origin pending_page TimeoutFires) (silent_state pending_page)
       \<noteq> None"
proof -
  have ne: "silent_state pending_page \<noteq> ''forged''"
    using pending_state_length by auto
  have m: "silent_step app_origin pending_page forged_reply =
      pending_page\<lparr>timer_armed := False, iframe := None, listener_armed := False,
        silent_promise := Rejected ''Invalid callback''\<rparr>"
    using ne pending_fields
    by (auto simp: forged_reply_def callback_message_def messageHandler_def Let_def settle_def)
  have t: "silent_step app_origin pending_page TimeoutFires =
      pending_page\<lparr>timer_armed := False, iframe := None,
        silent_promise := Rejected ''interaction_required''\<rparr>"
    by (rule timeout_fires) (simp_all add: pending_fields)
  show ?thesis
    unfolding m t using pending_entry by simp
qed


lemma accepted_code_message:
  assumes "ev_origin event = expectedOrigin"
    and "d_type (ev_data event) = ''oauthCallback''"
    and "\<not> truthy_str (d_error (ev_data event))"
    and "truthy_str (d_code (ev_data event))"
    and "d_state (ev_data event) = Some (silent_state p)"
    and "iframe p \<noteq> None"
  shows "sessionStorage (fst (messageHandler expectedOrigin answer event p))
           = (sessionStorage p)(silent_state p := None)"
    and "sessionStorage p (silent_state p) = None \<Longrightarrow> silent_promise p = Pending \<Longrightarrow>
           silent_promise (fst (messageHandler expectedOrigin answer event p))
             = Rejected ''PKCE data not found''"
proof -
  have e: "d_error (ev_data event) \<noteq> Some ''interaction_required''"
    using assms(3) by auto
  show "sessionStorage (fst (messageHandler expectedOrigin answer event p))
           = (sessionStorage p)(silent_state p := None)"
    using assms e
    by (cases "exchangeCodeForToken (template (d_code (ev_data event)))
                 (verifier_of (the (sessionStorage p (silent_state p)))) answer")
       (auto simp: messageHandler_def Let_def settle_def
             split: option.splits outcome.splits)
  show "silent_promise (fst (messageHandler expectedOrigin answer event p))
             = Rejected ''PKCE data not found''"
    if "sessionStorage p (silent_state p) = None" "silent_promise p = Pending"
    using assms e that by (auto simp: messageHandler_def Let_def settle_def)
qed

lemma bootstrap_code_state:
  assumes "\<not> truthy_str (q_error u)" and "truthy_str (q_code u)" and "truthy_str (q_state u)"
  shows "sessionStorage (loadForgeRock expectedOrigin u answer events p)
           = (sessionStorage p)(template (q_state u) := None)"
    and "sessionStorage p (template (q_state u)) = None \<Longrightarrow>
           loadForgeRock expectedOrigin u answer events p =
             emit [ConsoleError ''PKCE data not found - possible CSRF attack or session timeout''] p"
proof -
  show "sessionStorage (loadForgeRock expectedOrigin u answer events p)
           = (sessionStorage p)(template (q_state u) := None)"
    using assms
    by (cases "exchangeCodeForToken (template (q_code u))
                 (verifier_of (the (sessionStorage p (template (q_state u))))) answer")
       (auto simp: loadForgeRock_def Let_def split: option.splits outcome.splits)
  show "loadForgeRock expectedOrigin u answer events p =
             emit [ConsoleError ''PKCE data not found - possible CSRF attack or session timeout''] p"
    if "sessionStorage p (template (q_state u)) = None"
    using assms that by (simp add: loadForgeRock_def Let_def)
qed

text \<open>
  Claim C3, as the code has it. A stored entry is consumed when a callback that carries a
  code looks it up by its state: in the silent flow the accepted message with the attempt's
  own state, in the bootstrap the \<^verbatim>\<open>code\<close> and \<^verbatim>\<open>state\<close> of the URL. After that lookup the store
  has no entry under the state, whatever the token endpoint answers, and a lookup that
  finds no entry ends with the missing-PKCE-data outcome: the silent attempt rejects with
  \<^verbatim>\<open>PKCE data not found\<close>, and a second bootstrap with the same state only logs that.
\<close>

theorem consumed_entry_is_removed:
  "(ev_origin event = expectedOrigin \<and> d_type (ev_data event) = ''oauthCallback''
      \<and> \<not> truthy_str (d_error (ev_data event)) \<and> truthy_str (d_code (ev_data event))
      \<and> d_state (ev_data event) = Some (silent_state p) \<and> iframe p \<noteq> None \<longrightarrow>
        sessionStorage (fst (messageHandler expectedOrigin answer event p)) (silent_state p) = None
        \<and> (sessionStorage p (silent_state p) = None \<and> silent_promise p = Pending \<longrightarrow>
             silent_promise (fst (messageHandler expectedOrigin answer event p))
               = Rejected ''PKCE data not found''))
   \<and> (\<not> truthy_str (q_error u) \<and> truthy_str (q_code u) \<and> truthy_str (q_state u) \<longrightarrow>
        sessionStorage (loadForgeRock expectedOrigin u answer events p) (template (q_state u)) = None
        \<and> loadForgeRock expectedOrigin u answer' events'
              (loadForgeRock expectedOrigin u answer events p)
            = emit [ConsoleError ''PKCE data not found - possible CSRF attack or session timeout'']
                (loadForgeRock expectedOrigin u answer events p))"
proof (intro conjI impI)
  assume a: "ev_origin event = expectedOrigin \<and> d_type (ev_data event) = ''oauthCallback''
      \<and> \<not> truthy_str (d_error (ev_data event)) \<and> truthy_str (d_code (ev_data event))
      \<and> d_state (ev_data event) = Some (silent_state p) \<and> iframe p \<noteq> None"
  then show "sessionStorage (fst (messageHandler expectedOrigin answer event p)) (silent_state p) = None"
    by (simp add: accepted_code_message(1))
  show "silent_promise (fst (messageHandler expectedOrigin answer event p))
               = Rejected ''PKCE data not found''"
    if "sessionStorage p (silent_state p) = None \<and> silent_promise p = Pending"
    using a that accepted_code_message(2) by blast
next
  assume b: "\<not> truthy_str (q_error u) \<and> truthy_str (q_code u) \<and> truthy_str (q_state u)"
  then show gone: "sessionStorage (loadForgeRock expectedOrigin u answer events p)
      (template (q_state u)) = None"
    by (simp add: bootstrap_code_state(1))
  show "loadForgeRock expectedOrigin u answer' events'
              (loadForgeRock expectedOrigin u answer events p)
            = emit [ConsoleError ''PKCE data not found - possible CSRF attack or session timeout'']
                (loadForgeRock expectedOrigin u answer events p)"
    using b gone bootstrap_code_state(2) by blast
qed


text \<open>The genuine callback of a fresh attempt, in the silent flow and in the bootstrap.\<close>

theorem consumed_entry_is_removed_witness:
  "sessionStorage pending_page (silent_state pending_page) \<noteq> None
   \<and> sessionStorage (fst (messageHandler app_origin token_ok genuine_message pending_page))
        (silent_state pending_page) = None
   \<and> silent_promise (fst (messageHandler app_origin token_ok genuine_message
        (pending_page\<lparr>sessionStorage := Map.empty\<rparr>))) = Rejected ''PKCE data not found''
   \<and> sessionStorage (loadForgeRock app_origin code_params token_ok [] pending_page)
        (silent_state pending_page) = None
   \<and> loadForgeRock app_origin code_params token_ok []
        (loadForgeRock app_origin code_params token_ok [] pending_page)
       = emit [ConsoleError ''PKCE data not found - possible CSRF attack or session timeout'']
           (loadForgeRock app_origin code_params token_ok [] pending_page)"
proof -
  have ne: "silent_state pending_page \<noteq> []"
    using pending_state_length by auto
  have h1: "ev_origin genuine_message = app_origin \<and> d_type (ev_data genuine_message) = ''oauthCallback''
      \<and> \<not> truthy_str (d_error (ev_data genuine_message))
      \<and> truthy_str (d_code (ev_data genuine_message))
      \<and> d_state (ev_data genuine_message) = Some (silent_state pending_page)
      \<and> iframe pending_page \<noteq> None"
    using pending_fields by (simp add: genuine_message_def callback_message_def)
  have h1': "ev_origin genuine_message = app_origin \<and> d_type (ev_data genuine_message) = ''oauthCallback''
      \<and> \<not> truthy_str (d_error (ev_data genuine_message))
      \<and> truthy_str (d_code (ev_data genuine_message))
      \<and> d_state (ev_data genuine_message)
          = Some (silent_state (pending_page\<lparr>sessionStorage := Map.empty\<rparr>))
      \<and> iframe (pending_page\<lparr>sessionStorage := Map.empty\<rparr>) \<noteq> None"
    using h1 by simp
  have h2: "sessionStorage (pending_page\<lparr>sessionStorage := Map.empty\<rparr>)
              (silent_state (pending_page\<lparr>sessionStorage := Map.empty\<rparr>)) = None
            \<and> silent_promise (pending_page\<lparr>sessionStorage := Map.empty\<rparr>) = Pending"
    using pending_fields by simp
  have h3: "\<not> truthy_str (q_error code_params) \<and> truthy_str (q_code code_params)
      \<and> truthy_str (q_state code_params)"
    using ne by (simp add: code_params_def)
  have k: "template (q_state code_params) = silent_state pending_page"
    by (simp add: code_params_def)
  note a = consumed_entry_is_removed
    [of genuine_message app_origin pending_page token_ok code_params "[]" token_ok "[]"]
  note b = consumed_entry_is_removed
    [of genuine_message app_origin "pending_page\<lparr>sessionStorage := Map.empty\<rparr>"
        token_ok code_params "[]" token_ok "[]"]
  have c1: "sessionStorage (fst (messageHandler app_origin token_ok genuine_message pending_page))
        (silent_state pending_page) = None"
    using a h1 by blast
  have c2: "silent_promise (fst (messageHandler app_origin token_ok genuine_message
        (pending_page\<lparr>sessionStorage := Map.empty\<rparr>))) = Rejected ''PKCE data not found''"
    using b h1' h2 by blast
  have c3: "sessionStorage (loadForgeRock app_origin code_params token_ok [] pending_page)
        (template (q_state code_params)) = None"
    using a h3 by blast
  have c4: "loadForgeRock app_origin code_params token_ok []
        (loadForgeRock app_origin code_params token_ok [] pending_page)
       = emit [ConsoleError ''PKCE data not found - possible CSRF attack or session timeout'']
           (loadForgeRock app_origin code_params token_ok [] pending_page)"
    using a h3 by blast
  show ?thesis
    using pending_entry c1 c2 c3 c4 unfolding k by blast
qed

section \<open>Token acquisition: properties\<close>

lemma redirectToLogin_redirects:
  "redirects (trace (redirectToLogin p)) = redirects (trace p) + 1"
  by (simp add: redirectToLogin_def redirects_def split: prod.splits)

text \<open>
  Claim C8: \<^verbatim>\<open>getAccessToken\<close> redirects exactly when the silent attempt rejects with
  \<^verbatim>\<open>interaction_required\<close>. In that case one navigation to the authorization endpoint is
  added to the trace; in every other case the page is left as the silent attempt left it,
  and a rejection with any other reason becomes the rejection of \<^verbatim>\<open>getAccessToken\<close> itself.
\<close>

theorem redirect_only_on_interaction_required:
  "(let q = foldl (silent_step expectedOrigin) (getAccessTokenSilently p) events
    in (silent_promise q = Rejected ''interaction_required'' \<longrightarrow>
          redirects (trace (snd (getAccessToken expectedOrigin events p)))
            = redirects (trace q) + 1)
       \<and> (silent_promise q \<noteq> Rejected ''interaction_required'' \<longrightarrow>
            snd (getAccessToken expectedOrigin events p) = q)
       \<and> (silent_promise q = Rejected m \<and> m \<noteq> ''interaction_required'' \<longrightarrow>
            getAccessToken expectedOrigin events p = (Rejected m, q)))"
  unfolding Let_def getAccessToken_def getAccessToken_catch_def
  by (auto simp: redirectToLogin_redirects split: promise.splits)

lemma timed_out:
  "foldl (silent_step app_origin) (getAccessTokenSilently fresh_page) [TimeoutFires]
     = pending_page\<lparr>timer_armed := False, iframe := None,
         silent_promise := Rejected ''interaction_required''\<rparr>"
  using timeout_fires [of pending_page app_origin] pending_fields
  by (simp add: pending_page_def del: silent_step.simps)

lemma denied:
  "foldl (silent_step app_origin) (getAccessTokenSilently fresh_page) [denied_reply]
     = pending_page\<lparr>timer_armed := False, iframe := None, listener_armed := False,
         silent_promise := Rejected ''OAuth error: access_denied''\<rparr>"
  using pending_fields
  by (auto simp: pending_page_def [symmetric] denied_reply_def callback_message_def
        messageHandler_def Let_def settle_def)

text \<open>A silent attempt that times out, and one that is answered with \<^verbatim>\<open>access_denied\<close>.\<close>

theorem redirect_only_on_interaction_required_witness:
  "silent_promise (foldl (silent_step app_origin) (getAccessTokenSilently fresh_page) [TimeoutFires])
     = Rejected ''interaction_required''
   \<and> redirects (trace (snd (getAccessToken app_origin [TimeoutFires] fresh_page))) = 1
   \<and> silent_promise (foldl (silent_step app_origin) (getAccessTokenSilently fresh_page) [denied_reply])
     = Rejected ''OAuth error: access_denied''
   \<and> fst (getAccessToken app_origin [denied_reply] fresh_page)
     = Rejected ''OAuth error: access_denied''
   \<and> redirects (trace (snd (getAccessToken app_origin [denied_reply] fresh_page))) = 0"
proof -
  note a = redirect_only_on_interaction_required
    [of app_origin fresh_page "[TimeoutFires]" "''x''", unfolded Let_def timed_out]
  note b = redirect_only_on_interaction_required
    [of app_origin fresh_page "[denied_reply]" "''OAuth error: access_denied''",
     unfolded Let_def denied]
  have t: "redirects (trace (snd (getAccessToken app_origin [TimeoutFires] fresh_page))) = 1"
    using a pending_fields by (simp add: redirects_def)
  have d: "getAccessToken app_origin [denied_reply] fresh_page =
      (Rejected ''OAuth error: access_denied'',
       pending_page\<lparr>timer_armed := False, iframe := None, listener_armed := False,
         silent_promise := Rejected ''OAuth error: access_denied''\<rparr>)"
    using b by simp
  show ?thesis
    unfolding timed_out denied d using t pending_fields by (simp add: redirects_def)
qed

text \<open>
  Claim C10: when the silent attempt rejects with \<^verbatim>\<open>interaction_required\<close>, the promise of
  \<^verbatim>\<open>getAccessToken\<close> is settled, and resolved with \<^verbatim>\<open>undefined\<close>, while the page is the one
  \<^verbatim>\<open>redirectToLogin\<close> leaves.
\<close>

theorem interaction_required_resolves_undefined:
  assumes "silent_promise (foldl (silent_step expectedOrigin) (getAccessTokenSilently p) events)
     = Rejected ''interaction_required''"
  shows "fst (getAccessToken expectedOrigin events p) = Resolved JUndefined
     \<and> snd (getAccessToken expectedOrigin events p)
         = redirectToLogin (foldl (silent_step expectedOrigin) (getAccessTokenSilently p) events)"
  using assms by (simp add: getAccessToken_def getAccessToken_catch_def)

text \<open>The silent attempt times out.\<close>

theorem interaction_required_resolves_undefined_witness:
  "silent_promise (foldl (silent_step app_origin) (getAccessTokenSilently fresh_page) [TimeoutFires])
     = Rejected ''interaction_required''
   \<and> fst (getAccessToken app_origin [TimeoutFires] fresh_page) = Resolved JUndefined"
proof -
  have h: "silent_promise (foldl (silent_step app_origin) (getAccessTokenSilently fresh_page)
      [TimeoutFires]) = Rejected ''interaction_required''"
    unfolding timed_out by simp
  show ?thesis
    using h interaction_required_resolves_undefined [OF h] by blast
qed

section \<open>Callback dispatch: properties\<close>

lemma reserved_not_unreserved:
  "CHR ''?'' \<notin> set (chars @ ''~'')" "CHR ''#'' \<notin> set (chars @ ''~'')"
  "CHR ''&'' \<notin> set (chars @ ''~'')" "CHR ''='' \<notin> set (chars @ ''~'')"
  "CHR ''%'' \<notin> set (chars @ ''~'')" "CHR ''+'' \<notin> set (chars @ ''~'')"
  by (simp_all add: chars_def)

lemma unreserved_chars:
  assumes "unreserved s"
  shows "CHR ''?'' \<notin> set s" "CHR ''#'' \<notin> set s" "CHR ''&'' \<notin> set s"
    "CHR ''='' \<notin> set s" "CHR ''%'' \<notin> set s" "CHR ''+'' \<notin> set s"
proof -
  have sub: "set s \<subseteq> set (chars @ ''~'')"
    using assms by (auto simp only: unreserved_def list_all_iff)
  show "CHR ''?'' \<notin> set s" "CHR ''#'' \<notin> set s" "CHR ''&'' \<notin> set s"
    "CHR ''='' \<notin> set s" "CHR ''%'' \<notin> set s" "CHR ''+'' \<notin> set s"
    using sub reserved_not_unreserved by blast+
qed

lemma form_decode_plain:
  "CHR ''%'' \<notin> set s \<Longrightarrow> CHR ''+'' \<notin> set s \<Longrightarrow> form_decode s = s"
  by (induction s rule: form_decode.induct) (auto simp: plus_to_space_def)

lemma split_on_none: "sep \<notin> set a \<Longrightarrow> split_on sep a = [a]"
  by (induction a) auto

lemma split_on_first: "sep \<notin> set a \<Longrightarrow> split_on sep (a @ sep # b) = a # split_on sep b"
  by (induction a) auto

lemma replace_first_chars: "set (replace_first pat rep s) \<subseteq> set rep \<union> set s"
proof (induction s)
  case Nil
  show ?case by (cases "pat = []") simp_all
next
  case (Cons c s)
  have "set (drop (length pat) (c # s)) \<subseteq> set (c # s)"
    by (rule set_drop_subset)
  with Cons show ?case by auto
qed

lemma application_path:
  assumes "is_pathname s"
  shows "CHR ''?'' \<notin> set (replace_first ''/callback'' ''/'' s)"
    and "CHR ''#'' \<notin> set (replace_first ''/callback'' ''/'' s)"
  using assms replace_first_chars [of "''/callback''" "''/''" s]
  by (auto simp: is_pathname_def list_all_iff)

lemma url_search_of_target:
  assumes "CHR ''?'' \<notin> set path" and "CHR ''#'' \<notin> set path" and "CHR ''#'' \<notin> set query"
  shows "url_search (path @ CHR ''?'' # query) = query"
proof -
  have "takeWhile (\<lambda>c. c \<noteq> CHR ''#'') (path @ CHR ''?'' # query) = path @ CHR ''?'' # query"
    using assms by (intro takeWhile_eq_all_conv [THEN iffD2]) auto
  moreover have "dropWhile (\<lambda>c. c \<noteq> CHR ''?'') (path @ CHR ''?'' # query) = CHR ''?'' # query"
    using assms(1) by (induction path) auto
  ultimately show ?thesis by (simp only: url_search_def) simp
qed

lemma search_params_two:
  assumes "unreserved a" and "unreserved b"
    and "CHR ''='' \<notin> set k1" "CHR ''&'' \<notin> set k1" "CHR ''%'' \<notin> set k1" "CHR ''+'' \<notin> set k1"
    and "CHR ''='' \<notin> set k2" "CHR ''&'' \<notin> set k2" "CHR ''%'' \<notin> set k2" "CHR ''+'' \<notin> set k2"
  shows "search_params (k1 @ CHR ''='' # a @ CHR ''&'' # k2 @ CHR ''='' # b) = [(k1, a), (k2, b)]"
proof -
  note ua = unreserved_chars [OF assms(1)]
  note ub = unreserved_chars [OF assms(2)]
  have s1: "CHR ''&'' \<notin> set (k1 @ CHR ''='' # a)" using assms ua by simp
  have s2: "CHR ''&'' \<notin> set (k2 @ CHR ''='' # b)" using assms ub by simp
  have split: "split_on (CHR ''&'') (k1 @ CHR ''='' # a @ CHR ''&'' # k2 @ CHR ''='' # b)
      = [k1 @ CHR ''='' # a, k2 @ CHR ''='' # b]"
    using split_on_first [OF s1, of "k2 @ CHR ''='' # b"] split_on_none [OF s2] by simp
  have name: "takeWhile (\<lambda>c. c \<noteq> CHR ''='') (k @ CHR ''='' # v) = k" if "CHR ''='' \<notin> set k" for k v
    using that by (induction k) auto
  have val: "drop 1 (dropWhile (\<lambda>c. c \<noteq> CHR ''='') (k @ CHR ''='' # v)) = v" if "CHR ''='' \<notin> set k" for k v
  proof -
    have "dropWhile (\<lambda>c. c \<noteq> CHR ''='') (k @ CHR ''='' # v) = CHR ''='' # v"
      using that by (induction k) auto
    then show ?thesis by (simp only:) simp
  qed
  show ?thesis
    using assms ua ub
    by (simp add: search_params_def split name val form_decode_plain del: One_nat_def)
qed


lemma forwarded_pair:
  assumes "is_pathname path" and "unreserved a" and "unreserved b"
    and "CHR ''='' \<notin> set k1" "CHR ''&'' \<notin> set k1" "CHR ''%'' \<notin> set k1" "CHR ''+'' \<notin> set k1"
    and "CHR ''#'' \<notin> set k1"
  shows "search_params (url_search (replace_first ''/callback'' ''/'' path
           @ CHR ''?'' # k1 @ CHR ''='' # a @ ''&state='' @ b))
         = [(k1, a), (''state'', b)]"
proof -
  note ua = unreserved_chars [OF assms(2)]
  note ub = unreserved_chars [OF assms(3)]
  have q: "CHR ''#'' \<notin> set (k1 @ CHR ''='' # a @ ''&state='' @ b)"
    using assms(8) ua ub by simp
  have "url_search (replace_first ''/callback'' ''/'' path
           @ CHR ''?'' # k1 @ CHR ''='' # a @ ''&state='' @ b)
        = k1 @ CHR ''='' # a @ ''&state='' @ b"
    using application_path [OF assms(1)] q by (rule url_search_of_target)
  moreover have "search_params (k1 @ CHR ''='' # a @ CHR ''&'' # ''state'' @ CHR ''='' # b)
      = [(k1, a), (''state'', b)]"
    using assms(2-7) by (intro search_params_two) simp_all
  ultimately show ?thesis by simp
qed

lemma forwarded_code:
  assumes "is_pathname path" and "unreserved code" and "unreserved state"
  shows "read_callback_params (replace_first ''/callback'' ''/'' path
           @ ''?code='' @ code @ ''&state='' @ state)
         = \<lparr>q_code = Some code, q_state = Some state, q_error = None\<rparr>"
  using forwarded_pair [OF assms, of "''code''"]
  by (simp add: read_callback_params_def params_get_def)

lemma forwarded_error:
  assumes "is_pathname path" and "unreserved error" and "unreserved state"
  shows "read_callback_params (replace_first ''/callback'' ''/'' path
           @ ''?error='' @ error @ ''&state='' @ state)
         = \<lparr>q_code = None, q_state = Some state, q_error = Some error\<rparr>"
  using forwarded_pair [OF assms, of "''error''"]
  by (simp add: read_callback_params_def params_get_def)

text \<open>
  Claim C9, as the code has it. The dispatcher does nothing when \<^verbatim>\<open>state\<close> is missing or
  empty, or when \<^verbatim>\<open>code\<close> and \<^verbatim>\<open>error\<close> are both missing or empty. Otherwise, in the
  top-level window it calls \<^verbatim>\<open>location.replace\<close> on the path with its first \<^verbatim>\<open>/callback\<close>
  turned into \<^verbatim>\<open>/\<close> (the base path, for the callback path itself), followed by the code and
  the state or, without a code, the error and the state; in a frame it posts
  \<^verbatim>\<open>{type: 'oauthCallback', code, state, error}\<close> to the parent with the window's own origin
  as the target origin. When the forwarded values are made of unreserved characters, the
  page navigated to reads them back as its \<^verbatim>\<open>code\<close> and \<^verbatim>\<open>state\<close>, or its \<^verbatim>\<open>error\<close> and
  \<^verbatim>\<open>state\<close>, query parameters.
\<close>

theorem callback_dispatch:
  "(\<not> truthy_str (q_state (params w))
      \<or> (\<not> truthy_str (q_code (params w)) \<and> \<not> truthy_str (q_error (params w))) \<longrightarrow>
        forgeRockCallback w = [])
   \<and> (truthy_str (q_state (params w)) \<and> truthy_str (q_code (params w)) \<and> is_top w \<longrightarrow>
        forgeRockCallback w =
          [ConsoleLog ''Handling callback in focus.'',
           LocationReplace (replace_first ''/callback'' ''/'' (pathname w)
              @ ''?code='' @ template (q_code (params w))
              @ ''&state='' @ template (q_state (params w)))])
   \<and> (truthy_str (q_state (params w)) \<and> \<not> truthy_str (q_code (params w))
        \<and> truthy_str (q_error (params w)) \<and> is_top w \<longrightarrow>
        forgeRockCallback w =
          [ConsoleLog ''Handling callback in focus.'',
           LocationReplace (replace_first ''/callback'' ''/'' (pathname w)
              @ ''?error='' @ template (q_error (params w))
              @ ''&state='' @ template (q_state (params w)))])
   \<and> (truthy_str (q_state (params w))
        \<and> (truthy_str (q_code (params w)) \<or> truthy_str (q_error (params w)))
        \<and> \<not> is_top w \<longrightarrow>
        forgeRockCallback w =
          [ConsoleLog ''Handling callback in iframe.'',
           PostMessage \<lparr>d_type = ''oauthCallback'', d_code = q_code (params w),
                        d_state = q_state (params w), d_error = q_error (params w)\<rparr>
             (window_origin w)])
   \<and> replace_first ''/callback'' ''/'' ''/callback'' = ''/''
   \<and> (is_top w \<and> is_pathname (pathname w)
        \<and> q_code (params w) = Some code \<and> code \<noteq> [] \<and> unreserved code
        \<and> q_state (params w) = Some state \<and> state \<noteq> [] \<and> unreserved state \<longrightarrow>
        map_option read_callback_params (navigated_to (forgeRockCallback w))
          = Some \<lparr>q_code = Some code, q_state = Some state, q_error = None\<rparr>)
   \<and> (is_top w \<and> is_pathname (pathname w)
        \<and> \<not> truthy_str (q_code (params w))
        \<and> q_error (params w) = Some error \<and> error \<noteq> [] \<and> unreserved error
        \<and> q_state (params w) = Some state \<and> state \<noteq> [] \<and> unreserved state \<longrightarrow>
        map_option read_callback_params (navigated_to (forgeRockCallback w))
          = Some \<lparr>q_code = None, q_state = Some state, q_error = Some error\<rparr>)"
proof (intro conjI impI)
  assume "is_top w \<and> is_pathname (pathname w)
        \<and> q_code (params w) = Some code \<and> code \<noteq> [] \<and> unreserved code
        \<and> q_state (params w) = Some state \<and> state \<noteq> [] \<and> unreserved state"
  then show "map_option read_callback_params (navigated_to (forgeRockCallback w))
          = Some \<lparr>q_code = Some code, q_state = Some state, q_error = None\<rparr>"
    using forwarded_code [of "pathname w" code state]
    by (simp add: forgeRockCallback_def Let_def)
next
  assume "is_top w \<and> is_pathname (pathname w)
        \<and> \<not> truthy_str (q_code (params w))
        \<and> q_error (params w) = Some error \<and> error \<noteq> [] \<and> unreserved error
        \<and> q_state (params w) = Some state \<and> state \<noteq> [] \<and> unreserved state"
  then show "map_option read_callback_params (navigated_to (forgeRockCallback w))
          = Some \<lparr>q_code = None, q_state = Some state, q_error = Some error\<rparr>"
    using forwarded_error [of "pathname w" error state]
    by (simp add: forgeRockCallback_def Let_def)
qed (auto simp: forgeRockCallback_def Let_def)

text \<open>The dispatcher on the callback path, with and without parameters, top-level and framed.\<close>

theorem callback_dispatch_witness:
  "forgeRockCallback (sample_window None None None True) = []
   \<and> forgeRockCallback (sample_window (Some ''abc'') None None True) = []
   \<and> forgeRockCallback (sample_window None (Some ''xyz'') None False) = []
   \<and> forgeRockCallback (sample_window (Some ''abc'') (Some ''xyz'') None True)
       = [ConsoleLog ''Handling callback in focus.'', LocationReplace ''/?code=abc&state=xyz'']
   \<and> forgeRockCallback (sample_window None (Some ''xyz'') (Some ''access_denied'') True)
       = [ConsoleLog ''Handling callback in focus.'',
          LocationReplace ''/?error=access_denied&state=xyz'']
   \<and> forgeRockCallback (sample_window (Some ''abc'') (Some ''xyz'') None False)
       = [ConsoleLog ''Handling callback in iframe.'',
          PostMessage \<lparr>d_type = ''oauthCallback'', d_code = Some ''abc'', d_state = Some ''xyz'',
                       d_error = None\<rparr> app_origin]
   \<and> is_pathname ''/callback'' \<and> unreserved ''abc'' \<and> unreserved ''xyz''
   \<and> unreserved ''access_denied''
   \<and> read_callback_params ''/?code=abc&state=xyz''
       = \<lparr>q_code = Some ''abc'', q_state = Some ''xyz'', q_error = None\<rparr>
   \<and> read_callback_params ''/?error=access_denied&state=xyz''
       = \<lparr>q_code = None, q_state = Some ''xyz'', q_error = Some ''access_denied''\<rparr>"
proof -
  have u: "is_pathname ''/callback''" "unreserved ''abc''" "unreserved ''xyz''"
    "unreserved ''access_denied''"
    by (simp_all add: is_pathname_def unreserved_def chars_def)
  note a = callback_dispatch [of "sample_window None None None True" "''abc''" "''xyz''" "''access_denied''"]
  note b = callback_dispatch [of "sample_window (Some ''abc'') None None True" "''abc''" "''xyz''" "''access_denied''"]
  note c = callback_dispatch [of "sample_window None (Some ''xyz'') None False" "''abc''" "''xyz''" "''access_denied''"]
  note d = callback_dispatch [of "sample_window (Some ''abc'') (Some ''xyz'') None True" "''abc''" "''xyz''" "''access_denied''"]
  note e = callback_dispatch [of "sample_window None (Some ''xyz'') (Some ''access_denied'') True" "''abc''" "''xyz''" "''access_denied''"]
  note f = callback_dispatch [of "sample_window (Some ''abc'') (Some ''xyz'') None False" "''abc''" "''xyz''" "''access_denied''"]
  have r: "forgeRockCallback (sample_window None None None True) = []"
    "forgeRockCallback (sample_window (Some ''abc'') None None True) = []"
    "forgeRockCallback (sample_window None (Some ''xyz'') None False) = []"
    "forgeRockCallback (sample_window (Some ''abc'') (Some ''xyz'') None False)
       = [ConsoleLog ''Handling callback in iframe.'',
          PostMessage \<lparr>d_type = ''oauthCallback'', d_code = Some ''abc'', d_state = Some ''xyz'',
                       d_error = None\<rparr> app_origin]"
    using a b c f by (simp_all add: sample_window_def)
  have dd: "forgeRockCallback (sample_window (Some ''abc'') (Some ''xyz'') None True)
       = [ConsoleLog ''Handling callback in focus.'', LocationReplace ''/?code=abc&state=xyz'']"
    using d by (simp add: sample_window_def)
  have ee: "forgeRockCallback (sample_window None (Some ''xyz'') (Some ''access_denied'') True)
       = [ConsoleLog ''Handling callback in focus.'',
          LocationReplace ''/?error=access_denied&state=xyz'']"
    using e by (simp add: sample_window_def)
  have rd: "read_callback_params ''/?code=abc&state=xyz''
       = \<lparr>q_code = Some ''abc'', q_state = Some ''xyz'', q_error = None\<rparr>"
    using d u unfolding dd by (simp add: sample_window_def)
  have re: "read_callback_params ''/?error=access_denied&state=xyz''
       = \<lparr>q_code = None, q_state = Some ''xyz'', q_error = Some ''access_denied''\<rparr>"
    using e u unfolding ee by (simp add: sample_window_def)
  show ?thesis
    using u r dd ee rd re by simp
qed

text \<open>
  Claim C9 as written fails when the \<^verbatim>\<open>state\<close> parameter is present but empty
  (\<^verbatim>\<open>?code=abc&state=\<close>): a code is there and the state is not absent, yet nothing is done.
\<close>

theorem empty_state_is_a_noop:
  "forgeRockCallback (sample_window (Some ''abc'') (Some []) None True) = []
   \<and> forgeRockCallback (sample_window (Some ''abc'') (Some []) None False) = []"
  by (simp add: forgeRockCallback_def sample_window_def)

text \<open>
  The values are interpolated as they were decoded, without encoding them again. A code
  with a \<^verbatim>\<open>#\<close> moves the state into the fragment, and a code with \<^verbatim>\<open>&state=\<close> in it puts its
  own state before the real one.
\<close>

lemma unescaped_values_are_interpolated:
  "map_option read_callback_params
     (navigated_to (forgeRockCallback (sample_window (Some ''a#b'') (Some ''xyz'') None True)))
     = Some \<lparr>q_code = Some ''a'', q_state = None, q_error = None\<rparr>
   \<and> map_option read_callback_params
     (navigated_to (forgeRockCallback (sample_window (Some ''a&state=evil'') (Some ''xyz'') None True)))
     = Some \<lparr>q_code = Some ''a'', q_state = Some ''evil'', q_error = None\<rparr>"
  by code_simp

section \<open>The RFC 7636 test vector\<close>

lemma rfc7636_digest:
  "digest_SHA256 (encode ''dBjftJeZ4CVP-mB92K27uhbUJU1p1r_wW1gFWFOEjXk'') =
     [19, 211, 30, 150, 26, 26, 216, 236, 47, 22, 177, 12, 76, 152, 46, 8, 118,
      168, 120, 173, 109, 241, 68, 86, 110, 225, 137, 74, 203, 112, 249, 195]"
  by code_simp

lemma rfc7636_encoding:
  "base64url_nopad
     [19, 211, 30, 150, 26, 26, 216, 236, 47, 22, 177, 12, 76, 152, 46, 8, 118,
      168, 120, 173, 109, 241, 68, 86, 110, 225, 137, 74, 203, 112, 249, 195]
   = ''E9Melhoa2OwvFrEMTJguCHaoeK1t8URWbuGJSstw-cM''"
  by code_simp

text \<open>
  Claim C4: for every verifier, \<^verbatim>\<open>generateCodeChallenge\<close> (a function of the verifier alone) is
  the base64url encoding without padding of the SHA-256 hash of the verifier's UTF-8 bytes,
  and on the verifier of RFC 7636, appendix B, it gives the challenge printed there.
\<close>

theorem code_challenge_is_S256:
  "generateCodeChallenge verifier = base64url_nopad (digest_SHA256 (encode verifier))
   \<and> generateCodeChallenge ''dBjftJeZ4CVP-mB92K27uhbUJU1p1r_wW1gFWFOEjXk''
       = ''E9Melhoa2OwvFrEMTJguCHaoeK1t8URWbuGJSstw-cM''"
  by (simp only: generateCodeChallenge_refines rfc7636_digest rfc7636_encoding)

end
